theory Spec2Isabelle
  imports Complex_Main
begin

section \<open>The chase-tag environment: opponent, terrain and episode logic\<close>

text \<open>
  The development embeds \<^verbatim>\<open>myosuite/envs/myo/myochallenge/chasetag_v0.py\<close>.
  Python floats are read as real numbers: rounding is not modelled, and the only
  non-finite values that the embedded code can produce (a division by zero in the
  terrain normalisation) are written out as \<open>None\<close> in the type of elevations.
  Exceptions are values: a raising call returns \<open>Inl (e, s)\<close>, where \<open>s\<close> is the
  object as the raise leaves it (Python mutates in place, so the assignments made
  before the raise persist).
\<close>

subsection \<open>Errors and random generators\<close>

datatype error =
    AssertionError
  | AttributeError
  | NotImplementedError
  | UnboundLocalError
  | IndexError
  | ValueError

type_synonym 'a res = "(error \<times> 'a) + 'a"

text \<open>
  A numpy generator is the stream of the unit-interval draws it still has to hand out;
  \<^verbatim>\<open>rng.uniform(low, high)\<close> consumes one draw \<open>u\<close> and returns
  \<open>low + (high - low) * u\<close>, and \<^verbatim>\<open>choice\<close> over \<open>k\<close> items picks the item
  at index \<open>\<lfloor>u * k\<rfloor>\<close>.
\<close>

type_synonym rng = "nat \<Rightarrow> real"

definition advance :: "nat \<Rightarrow> rng \<Rightarrow> rng" where
  "advance k g = (\<lambda>n. g (n + k))"

definition uniform :: "real \<Rightarrow> real \<Rightarrow> rng \<Rightarrow> real \<times> rng" where
  "uniform low high g = (low + (high - low) * g 0, advance 1 g)"

definition unit_draws :: "rng \<Rightarrow> bool" where
  "unit_draws g = (\<forall>n. 0 \<le> g n \<and> g n < 1)"

definition np_clip :: "real \<Rightarrow> real \<Rightarrow> real \<Rightarrow> real" where
  "np_clip lo hi v = min (max v lo) hi"

subsection \<open>The simulation store and the external collaborators\<close>

text \<open>
  Of the shared simulation only the cells the opponent touches are kept:
  \<^verbatim>\<open>sim.data.mocap_pos[0, :2]\<close>, \<^verbatim>\<open>sim.data.mocap_quat[0, :]\<close> and
  \<^verbatim>\<open>sim.data.body('root').xpos[:2]\<close>. The quaternion type \<open>'q\<close>, the conversions
  of \<^verbatim>\<open>myosuite.utils.quat_math\<close> and the noise process of the \<^verbatim>\<open>pink\<close> library
  (state type \<open>'n\<close>) are not part of the embedded file; they are parameters.
  \<open>quat2euler_yaw q\<close> stands for \<^verbatim>\<open>quat2euler(q)[-1]\<close>, \<open>euler2quat_yaw a\<close> for
  \<^verbatim>\<open>euler2quat([0, 0, a])\<close>. The noise process draws from the generator it was
  built with, which is the opponent's own generator object.
\<close>

record 'q sim =
  mocap_pos :: "real \<times> real"
  mocap_quat :: 'q
  root_xpos :: "real \<times> real"

record ('q, 'n) extern =
  quat2euler_yaw :: "'q \<Rightarrow> real"
  euler2quat_yaw :: "real \<Rightarrow> 'q"
  pink_new :: "rng \<Rightarrow> 'n \<times> rng"
  pink_sample :: "'n \<Rightarrow> rng \<Rightarrow> real list \<times> 'n \<times> rng"

subsection \<open>ChallengeOpponent\<close>

text \<open>
  Attributes that \<^verbatim>\<open>__init__\<close> does not assign (\<^verbatim>\<open>rng\<close>, \<^verbatim>\<open>noise_process\<close>,
  \<^verbatim>\<open>opponent_policy\<close>) are optional: \<open>None\<close> is the attribute not being set, and
  reading it raises \<^verbatim>\<open>AttributeError\<close>. A pose is the triple \<open>(x, y, angle)\<close>.
  The time step \<^verbatim>\<open>dt\<close> is assigned once, in \<^verbatim>\<open>__init__\<close>, and is a constant here.
\<close>

type_synonym pose = "real \<times> real \<times> real"

record ('q, 'n) opponent =
  sim :: "'q sim"
  opponent_probabilities :: "real list"
  min_spawn_distance :: real
  rng :: "rng option"
  noise_process :: "'n option"
  opponent_vel :: "real list"
  opponent_policy :: "string option"

definition dt :: real where
  "dt = 0.01"

definition get_opponent_pose :: "('q, 'n) extern \<Rightarrow> ('q, 'n) opponent \<Rightarrow> pose" where
  "get_opponent_pose ext s =
     (fst (mocap_pos (sim s)), snd (mocap_pos (sim s)), quat2euler_yaw ext (mocap_quat (sim s)))"

definition set_opponent_pose ::
  "('q, 'n) extern \<Rightarrow> pose \<Rightarrow> ('q, 'n) opponent \<Rightarrow> ('q, 'n) opponent" where
  "set_opponent_pose ext p s =
     (case p of (x, y, a) \<Rightarrow>
        s\<lparr>sim := (sim s)\<lparr>mocap_pos := (x, y), mocap_quat := euler2quat_yaw ext a\<rparr>\<rparr>)"

text \<open>
  \<^verbatim>\<open>move_opponent\<close>: the attribute \<^verbatim>\<open>opponent_vel\<close> is bound to the argument before
  the assertion, and \<^verbatim>\<open>vel[0] = np.abs(vel[0])\<close> writes through that alias, while
  \<^verbatim>\<open>np.clip\<close> builds a new array that only the local name sees.
\<close>

definition move_opponent ::
  "('q, 'n) extern \<Rightarrow> real list \<Rightarrow> ('q, 'n) opponent \<Rightarrow> ('q, 'n) opponent res" where
  "move_opponent ext vel s =
     (let s1 = s\<lparr>opponent_vel := vel\<rparr> in
      if length vel \<noteq> 2 then Inl (AssertionError, s1)
      else
        let vel1 = vel[0 := \<bar>vel ! 0\<bar>];
            s2 = s1\<lparr>opponent_vel := vel1\<rparr>;
            v = map (np_clip (- 1) 1) vel1
        in case get_opponent_pose ext s2 of (x, y, a) \<Rightarrow>
             let x_vel = (v ! 0) * cos (a + 0.5 * pi);
                 y_vel = (v ! 0) * sin (a + 0.5 * pi);
                 x' = x - dt * x_vel;
                 y' = y - dt * y_vel;
                 a' = a + dt * (v ! 1)
             in Inr (set_opponent_pose ext
                       (np_clip (- 5.5) 5.5 x', np_clip (- 5.5) 5.5 y', a') s2))"

definition random_movement ::
  "('q, 'n) extern \<Rightarrow> ('q, 'n) opponent \<Rightarrow>
     (error \<times> ('q, 'n) opponent) + (real list \<times> ('q, 'n) opponent)" where
  "random_movement ext s =
     (case (noise_process s, rng s) of
        (Some n, Some g) \<Rightarrow>
          (case pink_sample ext n g of (v, n', g') \<Rightarrow>
             Inr (v, s\<lparr>noise_process := Some n', rng := Some g'\<rparr>))
      | _ \<Rightarrow> Inl (AttributeError, s))"

text \<open>
  \<^verbatim>\<open>sample_opponent_policy\<close>: an \<^verbatim>\<open>if/elif/elif\<close> chain with no \<^verbatim>\<open>else\<close>; when
  no test succeeds, nothing is assigned. The list of probabilities is indexed lazily,
  so a short list raises only when the missing entry is reached.
\<close>

definition sample_opponent_policy :: "('q, 'n) opponent \<Rightarrow> ('q, 'n) opponent res" where
  "sample_opponent_policy s =
     (case rng s of
        None \<Rightarrow> Inl (AttributeError, s)
      | Some g \<Rightarrow>
          (case uniform 0 1 g of (rand_num, g') \<Rightarrow>
             let s1 = s\<lparr>rng := Some g'\<rparr> in
             (case opponent_probabilities s1 of
                [] \<Rightarrow> Inl (IndexError, s1)
              | p0 # r0 \<Rightarrow>
                  if rand_num < p0 then Inr (s1\<lparr>opponent_policy := Some ''static_stationary''\<rparr>)
                  else (case r0 of
                          [] \<Rightarrow> Inl (IndexError, s1)
                        | p1 # r1 \<Rightarrow>
                            if rand_num < p0 + p1
                            then Inr (s1\<lparr>opponent_policy := Some ''stationary''\<rparr>)
                            else (case r1 of
                                    [] \<Rightarrow> Inl (IndexError, s1)
                                  | p2 # r2 \<Rightarrow>
                                      if rand_num < p0 + p1 + p2
                                      then Inr (s1\<lparr>opponent_policy := Some ''random''\<rparr>)
                                      else Inr s1)))))"

definition update_opponent_state ::
  "('q, 'n) extern \<Rightarrow> ('q, 'n) opponent \<Rightarrow> ('q, 'n) opponent res" where
  "update_opponent_state ext s =
     (case opponent_policy s of
        None \<Rightarrow> Inl (AttributeError, s)
      | Some p \<Rightarrow>
          if p = ''stationary'' \<or> p = ''static_stationary'' then move_opponent ext [0, 0] s
          else if p = ''random'' then
            (case random_movement ext s of
               Inl e \<Rightarrow> Inl e
             | Inr (v, s') \<Rightarrow> move_opponent ext v s')
          else Inl (NotImplementedError, s))"

text \<open>A run of \<open>n\<close> ticks stops at the first tick that raises.\<close>

fun ticks :: "('q, 'n) extern \<Rightarrow> nat \<Rightarrow> ('q, 'n) opponent \<Rightarrow> ('q, 'n) opponent res" where
  "ticks ext 0 s = Inr s"
| "ticks ext (Suc n) s =
     (case update_opponent_state ext s of
        Inl e \<Rightarrow> Inl e
      | Inr s' \<Rightarrow> ticks ext n s')"

text \<open>
  The spawn loop of \<^verbatim>\<open>reset_opponent\<close>. Its state is the accumulator \<^verbatim>\<open>dist\<close>, the
  local \<^verbatim>\<open>pose\<close> (\<open>None\<close> while the name is unbound) and the generator. The loop has
  no bound on its iterations: \<open>None\<close> as the result is the loop running forever.
\<close>

definition draw_pose :: "rng \<Rightarrow> pose \<times> rng" where
  "draw_pose g =
     (case uniform (- 5) 5 g of (x, g1) \<Rightarrow>
      case uniform (- 5) 5 g1 of (y, g2) \<Rightarrow>
      case uniform (- 2 * pi) (2 * pi) g2 of (a, g3) \<Rightarrow> ((x, y, a), g3))"

definition planar_dist :: "pose \<Rightarrow> real \<times> real \<Rightarrow> real" where
  "planar_dist p r = (case p of (x, y, a) \<Rightarrow> sqrt ((x - fst r)\<^sup>2 + (y - snd r)\<^sup>2))"

partial_function (option) spawn_loop ::
  "real \<Rightarrow> real \<times> real \<Rightarrow> real \<Rightarrow> pose option \<Rightarrow> rng \<Rightarrow> (pose option \<times> rng) option" where
  "spawn_loop msd root_pos dist0 pose g =
     (if dist0 < msd
      then spawn_loop msd root_pos
             (planar_dist (fst (draw_pose g)) root_pos) (Some (fst (draw_pose g)))
             (snd (draw_pose g))
      else Some (pose, g))"

definition reset_noise_process ::
  "('q, 'n) extern \<Rightarrow> ('q, 'n) opponent \<Rightarrow> ('q, 'n) opponent res" where
  "reset_noise_process ext s =
     (case rng s of
        None \<Rightarrow> Inl (AttributeError, s)
      | Some g \<Rightarrow>
          (case pink_new ext g of (n, g') \<Rightarrow> Inr (s\<lparr>noise_process := Some n, rng := Some g'\<rparr>)))"

text \<open>
  The part of \<^verbatim>\<open>reset_opponent\<close> after the loop: the policy attribute is read first,
  then the local \<^verbatim>\<open>pose\<close>, in either branch.
\<close>

definition place_opponent ::
  "('q, 'n) extern \<Rightarrow> pose option \<Rightarrow> ('q, 'n) opponent \<Rightarrow> ('q, 'n) opponent res" where
  "place_opponent ext pose s =
     (case opponent_policy s of
        None \<Rightarrow> Inl (AttributeError, s)
      | Some p \<Rightarrow>
          (case pose of
             None \<Rightarrow> Inl (UnboundLocalError, s)
           | Some po \<Rightarrow>
               let po' = (if p = ''static_stationary'' then (0, - 5, 0) else po)
               in Inr ((set_opponent_pose ext po' s)\<lparr>opponent_vel := [0, 0]\<rparr>)))"

text \<open>
  The part of \<^verbatim>\<open>reset_opponent\<close> before the loop: the generator and the noise process
  are replaced when a generator is passed, the velocity is zeroed and the policy sampled.
\<close>

definition reset_prologue ::
  "('q, 'n) extern \<Rightarrow> rng option \<Rightarrow> ('q, 'n) opponent \<Rightarrow> ('q, 'n) opponent res" where
  "reset_prologue ext rng_arg s =
     (case (case rng_arg of
              None \<Rightarrow> Inr s
            | Some g \<Rightarrow> reset_noise_process ext (s\<lparr>rng := Some g\<rparr>)) of
        Inl e \<Rightarrow> Inl e
      | Inr s1 \<Rightarrow> sample_opponent_policy (s1\<lparr>opponent_vel := [0, 0]\<rparr>))"

definition reset_opponent ::
  "('q, 'n) extern \<Rightarrow> rng option \<Rightarrow> ('q, 'n) opponent \<Rightarrow> ('q, 'n) opponent res option" where
  "reset_opponent ext rng_arg s =
     (case reset_prologue ext rng_arg s of
        Inl e \<Rightarrow> Some (Inl e)
      | Inr s2 \<Rightarrow>
          (case rng s2 of
             None \<Rightarrow> Some (Inl (AttributeError, s2))
           | Some g \<Rightarrow>
               (case spawn_loop (min_spawn_distance s2) (root_xpos (sim s2)) 0 None g of
                  None \<Rightarrow> None
                | Some (pose, g') \<Rightarrow> Some (place_opponent ext pose (s2\<lparr>rng := Some g'\<rparr>)))))"

definition in_arena :: "real \<times> real \<Rightarrow> bool" where
  "in_arena p = (- 5.5 \<le> fst p \<and> fst p \<le> 5.5 \<and> - 5.5 \<le> snd p \<and> snd p \<le> 5.5)"

subsection \<open>HeightField: the two procedural patch kinds\<close>

text \<open>
  An elevation is a float; \<open>None\<close> is a non-finite one (numpy divides by zero without
  raising: the quotient is \<^verbatim>\<open>nan\<close> or \<^verbatim>\<open>inf\<close>, and it stays non-finite under the
  scaling that follows). \<^verbatim>\<open>np.min\<close> and \<^verbatim>\<open>np.max\<close> of an empty array raise
  \<^verbatim>\<open>ValueError\<close>. A patch is the list of its rows. The leading underscore of the
  method names is dropped. The two methods take the generator of the height field and
  return it beside the patch; a raise carries the error alone.
\<close>

type_synonym elevation = "real option"

definition np_divide :: "real \<Rightarrow> real \<Rightarrow> elevation" where
  "np_divide a b = (if b = 0 then None else Some (a / b))"

definition reshape :: "nat \<Rightarrow> nat \<Rightarrow> 'a list \<Rightarrow> 'a list list" where
  "reshape r c xs = map (\<lambda>i. take c (drop (i * c) xs)) [0..<r]"

definition linspace :: "real \<Rightarrow> real \<Rightarrow> nat \<Rightarrow> real list" where
  "linspace start stop num =
     (if num = 1 then [start]
      else map (\<lambda>i. start + real i * ((stop - start) / real (num - 1))) [0..<num])"

definition np_flip2 :: "'a list list \<Rightarrow> 'a list list" where
  "np_flip2 m = rev (map rev m)"

definition rot90 :: "'a list list \<Rightarrow> 'a list list" where
  "rot90 m = transpose (map rev m)"

definition in_range :: "real \<Rightarrow> real \<Rightarrow> elevation \<Rightarrow> bool" where
  "in_range lo hi e = (case e of None \<Rightarrow> False | Some v \<Rightarrow> lo \<le> v \<and> v \<le> hi)"

definition compute_rough_terrain ::
  "nat \<Rightarrow> rng \<Rightarrow> error + (elevation list list \<times> rng)" where
  "compute_rough_terrain patch_size g =
     (let rough = reshape patch_size patch_size
                    (map (\<lambda>i. - 0.5 + (0.5 - (- 0.5)) * g i) [0..<patch_size * patch_size]);
          g' = advance (patch_size * patch_size) g;
          cells = concat rough
      in if cells = [] then Inl ValueError
         else
           let lo = Min (set cells); hi = Max (set cells);
               scalar = 0.08; offset = 0.02
           in Inr (map (map (\<lambda>x. map_option (\<lambda>v. v * scalar - offset)
                                     (np_divide (x - lo) (hi - lo)))) rough, g'))"

definition compute_hilly_terrain ::
  "nat \<Rightarrow> rng \<Rightarrow> error + (elevation list list \<times> rng)" where
  "compute_hilly_terrain patch_size g =
     (let frequency = 10 in
      case uniform 0.03 0.23 g of (scalar, g1) \<Rightarrow>
        let data = map (\<lambda>t. sin (t + pi / 2) - 1)
                     (linspace 0 (frequency * pi) (patch_size * patch_size))
        in if data = [] then Inl ValueError
           else
             let lo = Min (set data); hi = Max (set data);
                 normalized_data = map (\<lambda>d. np_divide (d - lo) (hi - lo)) data;
                 flipped = np_flip2 (map (map (map_option (\<lambda>v. v * scalar)))
                                      (reshape patch_size patch_size normalized_data))
             in case uniform 0 1 g1 of (u, g2) \<Rightarrow>
                  Inr (if u < 0.5 then rot90 flipped else flipped, g2))"

subsection \<open>ChaseTagEnvV0: task sampling, win condition and score\<close>

text \<open>
  The environment keeps what the embedded methods read: the pelvis position of the
  simulation, the time and opponent pose of the last observation, the configuration of
  \<^verbatim>\<open>_setup\<close>, and the episode generator \<^verbatim>\<open>np_random\<close>. The state of the module-level
  \<^verbatim>\<open>np.random\<close> is a generator of its own, passed beside the environment.
\<close>

record env =
  pelvis_xpos :: "real \<times> real \<times> real"
  obs_time :: real
  obs_opponent_pose :: pose
  win_distance :: real
  maxTime :: real
  startFlag :: bool
  task_choice :: string
  current_task :: "string option"
  np_random :: rng

definition np_choice :: "'a list \<Rightarrow> rng \<Rightarrow> 'a \<times> rng" where
  "np_choice xs g = (xs ! nat \<lfloor>g 0 * real (length xs)\<rfloor>, advance 1 g)"

definition sample_task :: "env \<Rightarrow> rng \<Rightarrow> env \<times> rng" where
  "sample_task e np_global =
     (if task_choice e = ''random''
      then (case np_choice [''chase'', ''flee''] np_global of
              (t, np_global') \<Rightarrow> (e\<lparr>current_task := Some t\<rparr>, np_global'))
      else (e\<lparr>current_task := Some (task_choice e)\<rparr>, np_global))"

definition randomize_position_orientation ::
  "real list \<Rightarrow> real list \<Rightarrow> rng \<Rightarrow> (real list \<times> real list) \<times> rng" where
  "randomize_position_orientation qpos qvel np_global =
     (case uniform (- 6) 6 np_global of
        (v, np_global') \<Rightarrow> ((qpos[0 := v, 1 := v], qvel), np_global'))"

text \<open>\<^verbatim>\<open>np.round(x, 2)\<close>: scale by a hundred, round half to even, scale back.\<close>

definition rint :: "real \<Rightarrow> real" where
  "rint x =
     (let f = \<lfloor>x\<rfloor>; d = x - of_int f
      in if d < 1 / 2 then of_int f
         else if 1 / 2 < d then of_int (f + 1)
         else if even f then of_int f else of_int (f + 1))"

definition np_round2 :: "real \<Rightarrow> real" where
  "np_round2 x = rint (x * 100) / 100"

definition lose_condition :: "env \<Rightarrow> int" where
  "lose_condition e =
     (case pelvis_xpos e of (px, py, pz) \<Rightarrow>
        if pz < 0.5 then 1
        else if maxTime e \<le> obs_time e \<or> (6.5 < \<bar>px\<bar> \<or> 6.5 < \<bar>py\<bar>) then 1 else 0)"

definition win_condition :: "env \<Rightarrow> int" where
  "win_condition e =
     (case pelvis_xpos e of (px, py, pz) \<Rightarrow>
      case obs_opponent_pose e of (ox, oy, oa) \<Rightarrow>
        if sqrt ((px - ox)\<^sup>2 + (py - oy)\<^sup>2) \<le> win_distance e \<and> startFlag e then 1 else 0)"

definition get_done :: "env \<Rightarrow> int" where
  "get_done e =
     (if lose_condition e \<noteq> 0 then 1
      else if win_condition e \<noteq> 0 then 1
      else 0)"

definition get_score :: "env \<Rightarrow> real \<Rightarrow> real" where
  "get_score e time = 1 - (np_round2 time / maxTime e)"

text \<open>
  Of the reward dictionary the entries \<^verbatim>\<open>lose\<close> and the three ``must keys'' are kept;
  (\<open>done\<close> being a keyword, the fields carry the prefix \<open>rwd_\<close>);
  \<^verbatim>\<open>act_reg\<close>, \<^verbatim>\<open>distance\<close> and the weighted sum \<^verbatim>\<open>dense\<close> read the actuator
  observations and the weight table, which no property below depends on.
\<close>

record rwd_dict =
  rwd_lose :: int
  rwd_sparse :: real
  rwd_solved :: int
  rwd_done :: int

definition get_reward_dict :: "env \<Rightarrow> rwd_dict" where
  "get_reward_dict e =
     (let win_cdt = win_condition e;
          lose_cdt = lose_condition e;
          score = (if win_cdt \<noteq> 0 then get_score e (obs_time e) else 0)
      in \<lparr>rwd_lose = lose_cdt, rwd_sparse = score, rwd_solved = win_cdt,
          rwd_done = get_done e\<rparr>)"

subsection \<open>Concrete collaborators and objects for the worked instances\<close>

text \<open>
  The simplest collaborators: the orientation is kept as its yaw angle, and the noise
  process hands out the next two draws of the generator, scaled into \<open>[-10, 10)\<close>.
\<close>

definition yaw_ext :: "(real, unit) extern" where
  "yaw_ext = \<lparr>quat2euler_yaw = (\<lambda>q. q), euler2quat_yaw = (\<lambda>a. a),
              pink_new = (\<lambda>g. ((), g)),
              pink_sample = (\<lambda>n g. ([20 * g 0 - 10, 20 * g 1 - 10], n, advance 2 g))\<rparr>"

definition opp0 :: "(real, unit) opponent" where
  "opp0 = \<lparr>sim = \<lparr>mocap_pos = (0, 0), mocap_quat = 0, root_xpos = (3, 4)\<rparr>,
           opponent_probabilities = [0.1, 0.45, 0.45], min_spawn_distance = 2,
           rng = Some (\<lambda>n. 1 / 2), noise_process = Some (), opponent_vel = [0, 0],
           opponent_policy = Some ''random''\<rparr>"

definition env0 :: env where
  "env0 = \<lparr>pelvis_xpos = (0.2, 0, 0.9), obs_time = 0.004, obs_opponent_pose = (0, 0, 0),
           win_distance = 0.5, maxTime = 20, startFlag = True, task_choice = ''random'',
           current_task = None, np_random = (\<lambda>n. 1 / 2)\<rparr>"

section \<open>Verified properties\<close>

subsection \<open>Helper facts\<close>

lemma np_clip_bounds: "lo \<le> hi \<Longrightarrow> lo \<le> np_clip lo hi v \<and> np_clip lo hi v \<le> hi"
  by (simp add: np_clip_def min_def max_def)

lemma np_clip_arena: "- 5.5 \<le> np_clip (- 5.5) 5.5 v \<and> np_clip (- 5.5) 5.5 v \<le> 5.5"
  by (rule np_clip_bounds) simp

lemma set_opponent_pose_pos:
  "mocap_pos (sim (set_opponent_pose ext (x, y, a) s)) = (x, y)"
  by (simp add: set_opponent_pose_def)

lemma move_opponent_Inr:
  assumes "length vel = 2"
  shows "move_opponent ext vel s =
     Inr (set_opponent_pose ext
            (np_clip (- 5.5) 5.5
               (fst (mocap_pos (sim s))
                  - dt * (min \<bar>vel ! 0\<bar> 1 * cos (quat2euler_yaw ext (mocap_quat (sim s)) + pi / 2))),
             np_clip (- 5.5) 5.5
               (snd (mocap_pos (sim s))
                  - dt * (min \<bar>vel ! 0\<bar> 1 * sin (quat2euler_yaw ext (mocap_quat (sim s)) + pi / 2))),
             quat2euler_yaw ext (mocap_quat (sim s)) + dt * np_clip (- 1) 1 (vel ! 1))
            (s\<lparr>opponent_vel := vel[0 := \<bar>vel ! 0\<bar>]\<rparr>))"
proof -
  from assms obtain a b where vel: "vel = [a, b]"
    by (cases vel; cases "tl vel"; cases "tl (tl vel)") auto
  have "- 1 \<le> \<bar>a\<bar>" by simp
  then have c: "np_clip (- 1) 1 \<bar>a\<bar> = min \<bar>a\<bar> 1"
    unfolding np_clip_def by (simp only: max_absorb1)
  show ?thesis
    unfolding vel move_opponent_def get_opponent_pose_def Let_def
    by (simp add: c)
qed

lemma move_opponent_Inl:
  "length vel \<noteq> 2 \<Longrightarrow> move_opponent ext vel s = Inl (AssertionError, s\<lparr>opponent_vel := vel\<rparr>)"
  by (simp add: move_opponent_def)

lemma move_opponent_arena:
  assumes "move_opponent ext vel s = Inr s'"
  shows "in_arena (mocap_pos (sim s'))"
proof (cases "length vel = 2")
  case True
  from assms show ?thesis
    unfolding move_opponent_Inr[OF True]
    using np_clip_arena by (auto simp: set_opponent_pose_pos in_arena_def)
next
  case False
  with assms show ?thesis by (simp add: move_opponent_Inl)
qed

lemma update_opponent_state_arena:
  "update_opponent_state ext s = Inr s' \<Longrightarrow> in_arena (mocap_pos (sim s'))"
  unfolding update_opponent_state_def
  by (simp split: option.splits if_splits sum.splits prod.splits add: move_opponent_arena)

lemma ticks_arena:
  "ticks ext (Suc n) s = Inr s' \<Longrightarrow> in_arena (mocap_pos (sim s'))"
proof (induction n arbitrary: s)
  case 0
  show ?case
  proof (cases "update_opponent_state ext s")
    case (Inl e)
    with "0.prems" show ?thesis by simp
  next
    case (Inr s1)
    with "0.prems" have "s1 = s'" by simp
    with Inr show ?thesis by (simp add: update_opponent_state_arena)
  qed
next
  case (Suc n)
  show ?case
  proof (cases "update_opponent_state ext s")
    case (Inl e)
    with Suc.prems show ?thesis
      by (simp del: ticks.simps add: ticks.simps(2)[of ext "Suc n" s])
  next
    case (Inr s1)
    with Suc.prems have "ticks ext (Suc n) s1 = Inr s'"
      by (simp del: ticks.simps add: ticks.simps(2)[of ext "Suc n" s])
    then show ?thesis by (rule Suc.IH)
  qed
qed

subsection \<open>C1: the position clamp\<close>

text \<open>
  Claim C1. Every call of \<^verbatim>\<open>move_opponent\<close> that returns, whatever the velocity
  command, and every run of one or more ticks that returns, leaves the opponent's planar
  position inside \<open>[-5.5, 5.5] \<times> [-5.5, 5.5]\<close>: the position is clipped after the
  integration step.
\<close>

theorem opponent_position_clamped:
  "(move_opponent ext vel s = Inr s' \<longrightarrow> in_arena (mocap_pos (sim s'))) \<and>
   (ticks ext (Suc n) s = Inr s'' \<longrightarrow> in_arena (mocap_pos (sim s'')))"
proof (intro conjI impI)
  assume "move_opponent ext vel s = Inr s'"
  then show "in_arena (mocap_pos (sim s'))" by (rule move_opponent_arena)
next
  assume "ticks ext (Suc n) s = Inr s''"
  then show "in_arena (mocap_pos (sim s''))" by (rule ticks_arena)
qed

text \<open>The move of the concrete opponent, for any two-component command.\<close>

lemma np_clip_id: "lo \<le> v \<Longrightarrow> v \<le> hi \<Longrightarrow> np_clip lo hi v = v"
  by (simp add: np_clip_def)

lemma opp0_move:
  "move_opponent yaw_ext [a, b] opp0 =
     Inr (opp0\<lparr>sim := \<lparr>mocap_pos = (0, - (min \<bar>a\<bar> 1 / 100)), mocap_quat = np_clip (- 1) 1 b / 100,
                       root_xpos = (3, 4)\<rparr>,
               opponent_vel := [\<bar>a\<bar>, b]\<rparr>)"
proof -
  define m where "m = min \<bar>a\<bar> 1"
  have m: "0 \<le> m" "m \<le> 1" by (simp_all add: m_def)
  have "np_clip (- 5.5) 5.5 (- (m / 100)) = - (m / 100)"
    by (rule np_clip_id) (use m in simp_all)
  moreover have "np_clip (- 5.5) 5.5 0 = 0"
    by (rule np_clip_id) simp_all
  ultimately show ?thesis
    by (simp add: move_opponent_Inr set_opponent_pose_def yaw_ext_def opp0_def dt_def
          flip: m_def)
qed

text \<open>
  An instance: the command \<open>[-7, 3]\<close> moves the opponent to \<open>(0, -0.01)\<close>, and one tick
  of the \<open>random\<close> policy with the noise sample \<open>[0, 0]\<close> leaves it at the origin.
\<close>

theorem opponent_position_clamped_witness:
  "move_opponent yaw_ext [- 7, 3] opp0 =
     Inr (opp0\<lparr>sim := \<lparr>mocap_pos = (0, - (1 / 100)), mocap_quat = 1 / 100, root_xpos = (3, 4)\<rparr>,
               opponent_vel := [7, 3]\<rparr>)
   \<and> in_arena (0, - (1 / 100))
   \<and> ticks yaw_ext (Suc 0) opp0 =
     Inr (opp0\<lparr>sim := \<lparr>mocap_pos = (0, 0), mocap_quat = 0, root_xpos = (3, 4)\<rparr>,
               opponent_vel := [0, 0]\<rparr>)
   \<and> in_arena (0, 0)"
proof -
  have m: "move_opponent yaw_ext [- 7, 3] opp0 =
     Inr (opp0\<lparr>sim := \<lparr>mocap_pos = (0, - (1 / 100)), mocap_quat = 1 / 100, root_xpos = (3, 4)\<rparr>,
               opponent_vel := [7, 3]\<rparr>)"
    by (simp add: opp0_move np_clip_def)
  have "move_opponent yaw_ext [0, 0] opp0 =
     Inr (opp0\<lparr>sim := \<lparr>mocap_pos = (0, 0), mocap_quat = 0, root_xpos = (3, 4)\<rparr>,
               opponent_vel := [0, 0]\<rparr>)"
    by (simp add: opp0_move np_clip_def)
  then have t: "ticks yaw_ext (Suc 0) opp0 =
     Inr (opp0\<lparr>sim := \<lparr>mocap_pos = (0, 0), mocap_quat = 0, root_xpos = (3, 4)\<rparr>,
               opponent_vel := [0, 0]\<rparr>)"
    by (simp add: update_opponent_state_def random_movement_def opp0_def yaw_ext_def advance_def)
  note c = opponent_position_clamped[of yaw_ext "[- 7, 3]" opp0 _ 0]
  have a: "in_arena (0, - (1 / 100))"
    using c[THEN conjunct1, THEN mp, OF m] by simp
  have b: "in_arena (0, 0)"
    using c[THEN conjunct2, THEN mp, OF t] by simp
  from m a t b show ?thesis by (simp only: simp_thms)
qed



subsection \<open>C3: the integration step\<close>

text \<open>
  Claim C3 as stated says that a command \<open>(linear, angular)\<close> turns the heading by
  \<open>0.01 * angular\<close> and displaces the position by \<open>- 0.01 * linear\<close> times the forward
  vector. The code first replaces \<open>linear\<close> by its absolute value and clips both
  components into \<open>[-1, 1]\<close>: for the command \<open>[-0.5, 3]\<close> at the pose \<open>(0, 0, 0)\<close> the
  heading becomes \<open>0.01\<close>, not \<open>0.03\<close>, and \<open>y\<close> becomes \<open>-0.005\<close>, not \<open>0.005\<close>.
\<close>

theorem move_opponent_integrates_raw_command_counterexample:
  "move_opponent yaw_ext [- (1 / 2), 3] opp0 =
     Inr (opp0\<lparr>sim := \<lparr>mocap_pos = (0, - (1 / 200)), mocap_quat = 1 / 100, root_xpos = (3, 4)\<rparr>,
               opponent_vel := [1 / 2, 3]\<rparr>)
   \<and> get_opponent_pose yaw_ext opp0 = (0, 0, 0)
   \<and> (1 / 100 :: real) \<noteq> 0 + 0.01 * 3
   \<and> (- (1 / 200) :: real) \<noteq> 0 - 0.01 * (- (1 / 2)) * sin (0 + 0.5 * pi)"
proof -
  have "move_opponent yaw_ext [- (1 / 2), 3] opp0 =
     Inr (opp0\<lparr>sim := \<lparr>mocap_pos = (0, - (1 / 200)), mocap_quat = 1 / 100, root_xpos = (3, 4)\<rparr>,
               opponent_vel := [1 / 2, 3]\<rparr>)"
    by (simp add: opp0_move np_clip_def)
  moreover have "get_opponent_pose yaw_ext opp0 = (0, 0, 0)"
    by (simp add: get_opponent_pose_def opp0_def yaw_ext_def)
  ultimately show ?thesis by simp
qed

text \<open>
  Claim C3, amended. For a two-component command, with \<open>linear' = min \<bar>linear\<bar> 1\<close> and
  \<open>angular'\<close> the angular component clipped into \<open>[-1, 1]\<close>: the pose written back has
  the heading \<open>a + 0.01 * angular'\<close>, and its position is the clip of the old position
  moved by \<open>- 0.01 * linear'\<close> times \<open>(cos (a + \<pi>/2), sin (a + \<pi>/2))\<close>, a unit vector
  fixed by the heading \<open>a\<close> read before the update.
\<close>

theorem move_opponent_integrates:
  assumes "length vel = 2"
    and "get_opponent_pose ext s = (x, y, a)"
  shows "move_opponent ext vel s =
           Inr (set_opponent_pose ext
                  (np_clip (- 5.5) 5.5 (x - 0.01 * min \<bar>vel ! 0\<bar> 1 * cos (a + 0.5 * pi)),
                   np_clip (- 5.5) 5.5 (y - 0.01 * min \<bar>vel ! 0\<bar> 1 * sin (a + 0.5 * pi)),
                   a + 0.01 * np_clip (- 1) 1 (vel ! 1))
                  (s\<lparr>opponent_vel := vel[0 := \<bar>vel ! 0\<bar>]\<rparr>))
         \<and> (cos (a + 0.5 * pi))\<^sup>2 + (sin (a + 0.5 * pi))\<^sup>2 = 1"
proof -
  from assms(2) have "x = fst (mocap_pos (sim s))" "y = snd (mocap_pos (sim s))"
    "a = quat2euler_yaw ext (mocap_quat (sim s))"
    by (simp_all add: get_opponent_pose_def)
  then show ?thesis
    by (simp add: move_opponent_Inr[OF assms(1)] dt_def)
qed

text \<open>The amended statement at the command \<open>[-0.5, 3]\<close> and the pose \<open>(0, 0, 0)\<close>.\<close>

theorem move_opponent_integrates_witness:
  "length [- (1 / 2), 3 :: real] = 2 \<and> get_opponent_pose yaw_ext opp0 = (0, 0, 0)
   \<and> move_opponent yaw_ext [- (1 / 2), 3] opp0 =
       Inr (set_opponent_pose yaw_ext (0, - (1 / 200), 1 / 100) (opp0\<lparr>opponent_vel := [1 / 2, 3]\<rparr>))"
proof -
  have l: "length [- (1 / 2), 3 :: real] = 2" by simp
  have p: "get_opponent_pose yaw_ext opp0 = (0, 0, 0)"
    by (simp add: get_opponent_pose_def opp0_def yaw_ext_def)
  have c1: "np_clip (- 5.5) 5.5 0 = 0" by (rule np_clip_id) simp_all
  have c2: "np_clip (- 5.5) 5.5 (- (1 / 200)) = - (1 / 200)" by (rule np_clip_id) simp_all
  have c3: "np_clip (- 1) 1 3 = 1" by (simp add: np_clip_def)
  from move_opponent_integrates[OF l p] l p c1 c2 c3 show ?thesis
    by simp
qed


lemma move_opponent_returns:
  "length vel = 2 \<Longrightarrow> \<exists>s'. move_opponent ext vel s = Inr s'"
  by (simp add: move_opponent_Inr)

subsection \<open>C7: errors of a tick\<close>

text \<open>
  Claim C7. \<^verbatim>\<open>update_opponent_state\<close> raises when the policy attribute is unset
  (\<^verbatim>\<open>AttributeError\<close>) or holds a name other than the three policies
  (\<^verbatim>\<open>NotImplementedError\<close>), in both cases leaving the object as it was;
  \<^verbatim>\<open>move_opponent\<close> raises \<^verbatim>\<open>AssertionError\<close> on a command that does not have two
  components, having only bound \<^verbatim>\<open>opponent_vel\<close> and not touched the pose; and with
  two components, or with one of the three policies (for \<open>random\<close>: a noise sample of
  two components), the call returns.
\<close>

theorem tick_errors:
  "(opponent_policy s = None \<longrightarrow> update_opponent_state ext s = Inl (AttributeError, s))
   \<and> (opponent_policy s = Some p \<and> p \<noteq> ''static_stationary'' \<and> p \<noteq> ''stationary''
        \<and> p \<noteq> ''random'' \<longrightarrow> update_opponent_state ext s = Inl (NotImplementedError, s))
   \<and> (length vel \<noteq> 2 \<longrightarrow>
        move_opponent ext vel s = Inl (AssertionError, s\<lparr>opponent_vel := vel\<rparr>))
   \<and> (length vel = 2 \<longrightarrow> (\<exists>s'. move_opponent ext vel s = Inr s'))
   \<and> (opponent_policy s = Some p \<and> (p = ''static_stationary'' \<or> p = ''stationary'') \<longrightarrow>
        (\<exists>s'. update_opponent_state ext s = Inr s'))
   \<and> (opponent_policy s = Some ''random'' \<and> noise_process s = Some n \<and> rng s = Some g
        \<and> length (fst (pink_sample ext n g)) = 2 \<longrightarrow>
        (\<exists>s'. update_opponent_state ext s = Inr s'))"
proof (intro conjI impI)
  assume "opponent_policy s = None"
  then show "update_opponent_state ext s = Inl (AttributeError, s)"
    by (simp add: update_opponent_state_def)
next
  assume "opponent_policy s = Some p \<and> p \<noteq> ''static_stationary'' \<and> p \<noteq> ''stationary''
        \<and> p \<noteq> ''random''"
  then show "update_opponent_state ext s = Inl (NotImplementedError, s)"
    by (simp add: update_opponent_state_def)
next
  assume "length vel \<noteq> 2"
  then show "move_opponent ext vel s = Inl (AssertionError, s\<lparr>opponent_vel := vel\<rparr>)"
    by (rule move_opponent_Inl)
next
  assume "length vel = 2"
  then show "\<exists>s'. move_opponent ext vel s = Inr s'" by (rule move_opponent_returns)
next
  assume "opponent_policy s = Some p \<and> (p = ''static_stationary'' \<or> p = ''stationary'')"
  moreover have "\<exists>s'. move_opponent ext [0, 0] s = Inr s'"
    by (rule move_opponent_returns) simp
  ultimately show "\<exists>s'. update_opponent_state ext s = Inr s'"
    by (auto simp: update_opponent_state_def)
next
  assume a: "opponent_policy s = Some ''random'' \<and> noise_process s = Some n \<and> rng s = Some g
        \<and> length (fst (pink_sample ext n g)) = 2"
  obtain v n' g' where ps: "pink_sample ext n g = (v, n', g')"
    by (cases "pink_sample ext n g") auto
  with a have l: "length v = 2" by simp
  from a ps have "random_movement ext s = Inr (v, s\<lparr>noise_process := Some n', rng := Some g'\<rparr>)"
    by (simp add: random_movement_def)
  moreover from move_opponent_returns[OF l]
  obtain s' where "move_opponent ext v (s\<lparr>noise_process := Some n', rng := Some g'\<rparr>) = Inr s'"
    by blast
  ultimately show "\<exists>s'. update_opponent_state ext s = Inr s'"
    using a by (simp add: update_opponent_state_def)
qed

text \<open>Each case of the statement, at the concrete opponent.\<close>

theorem tick_errors_witness:
  "update_opponent_state yaw_ext (opp0\<lparr>opponent_policy := None\<rparr>)
     = Inl (AttributeError, opp0\<lparr>opponent_policy := None\<rparr>)
   \<and> update_opponent_state yaw_ext (opp0\<lparr>opponent_policy := Some ''chase''\<rparr>)
     = Inl (NotImplementedError, opp0\<lparr>opponent_policy := Some ''chase''\<rparr>)
   \<and> move_opponent yaw_ext [1, 2, 3] opp0 = Inl (AssertionError, opp0\<lparr>opponent_vel := [1, 2, 3]\<rparr>)
   \<and> (\<exists>s'. move_opponent yaw_ext [1, 2] opp0 = Inr s')
   \<and> (\<exists>s'. update_opponent_state yaw_ext (opp0\<lparr>opponent_policy := Some ''stationary''\<rparr>) = Inr s')
   \<and> (\<exists>s'. update_opponent_state yaw_ext opp0 = Inr s')"
proof -
  have 1: "update_opponent_state yaw_ext (opp0\<lparr>opponent_policy := None\<rparr>)
     = Inl (AttributeError, opp0\<lparr>opponent_policy := None\<rparr>)"
    using tick_errors[where s = "opp0\<lparr>opponent_policy := None\<rparr>" and ext = yaw_ext]
    by simp
  have 2: "update_opponent_state yaw_ext (opp0\<lparr>opponent_policy := Some ''chase''\<rparr>)
     = Inl (NotImplementedError, opp0\<lparr>opponent_policy := Some ''chase''\<rparr>)"
    using tick_errors[where s = "opp0\<lparr>opponent_policy := Some ''chase''\<rparr>" and ext = yaw_ext
        and p = "''chase''"]
    by simp
  have 3: "move_opponent yaw_ext [1, 2, 3] opp0 = Inl (AssertionError, opp0\<lparr>opponent_vel := [1, 2, 3]\<rparr>)"
    using tick_errors[where s = opp0 and ext = yaw_ext and vel = "[1, 2, 3]"]
    by simp
  have 4: "\<exists>s'. move_opponent yaw_ext [1, 2] opp0 = Inr s'"
    using tick_errors[where s = opp0 and ext = yaw_ext and vel = "[1, 2]"]
    by simp
  have 5: "\<exists>s'. update_opponent_state yaw_ext (opp0\<lparr>opponent_policy := Some ''stationary''\<rparr>) = Inr s'"
    using tick_errors[where s = "opp0\<lparr>opponent_policy := Some ''stationary''\<rparr>" and ext = yaw_ext
        and p = "''stationary''"]
    by simp
  have "opponent_policy opp0 = Some ''random'' \<and> noise_process opp0 = Some () \<and>
        rng opp0 = Some (\<lambda>n. 1 / 2) \<and> length (fst (pink_sample yaw_ext () (\<lambda>n. 1 / 2))) = 2"
    by (simp add: opp0_def yaw_ext_def)
  then have 6: "\<exists>s'. update_opponent_state yaw_ext opp0 = Inr s'"
    using tick_errors[where s = opp0 and ext = yaw_ext and n = "()" and g = "\<lambda>n. 1 / 2"]
    by blast
  from 1 2 3 4 5 6 show ?thesis by (simp only: simp_thms)
qed



subsection \<open>The spawn loop\<close>

text \<open>
  The \<open>k\<close>-th candidate pose of the loop started on the generator \<open>g\<close> is
  \<open>fst (draw_pose (advance (3 * k) g))\<close>. The loop returns as soon as a candidate lies
  at least \<open>msd\<close> away from the root, with that candidate; it returns nothing when no
  candidate does.
\<close>

lemma advance_advance: "advance a (advance b g) = advance (a + b) g"
  by (simp add: advance_def ac_simps)

lemma draw_pose_snd: "snd (draw_pose g) = advance 3 g"
  by (simp add: draw_pose_def uniform_def advance_def numeral_3_eq_3)

lemma spawn_loop_unfold:
  "d < msd \<Longrightarrow>
   spawn_loop msd r d po g =
     spawn_loop msd r (planar_dist (fst (draw_pose g)) r) (Some (fst (draw_pose g))) (advance 3 g)"
  by (subst spawn_loop.simps) (simp add: draw_pose_snd)

lemma spawn_loop_stop: "\<not> d < msd \<Longrightarrow> spawn_loop msd r d po g = Some (po, g)"
  by (subst spawn_loop.simps) simp

lemma spawn_loop_terminates:
  assumes "msd \<le> planar_dist (fst (draw_pose (advance (3 * k) g))) r" and "d < msd"
  shows "\<exists>p g'. spawn_loop msd r d po g = Some (Some p, g') \<and> msd \<le> planar_dist p r"
  using assms
proof (induction k arbitrary: g d po)
  case 0
  then have "msd \<le> planar_dist (fst (draw_pose g)) r" by (simp add: advance_def)
  then show ?case
    by (simp add: spawn_loop_unfold[OF "0.prems"(2)] spawn_loop_stop)
next
  case (Suc k)
  let ?d = "planar_dist (fst (draw_pose g)) r"
  show ?case
  proof (cases "?d < msd")
    case True
    have "advance (3 * k) (advance 3 g) = advance (3 * Suc k) g"
      by (simp add: advance_advance add.commute)
    with Suc.prems(1) have "msd \<le> planar_dist (fst (draw_pose (advance (3 * k) (advance 3 g)))) r"
      by simp
    from Suc.IH[OF this True] show ?thesis
      by (simp add: spawn_loop_unfold[OF Suc.prems(2)])
  next
    case False
    then show ?thesis
      by (simp add: spawn_loop_unfold[OF Suc.prems(2)] spawn_loop_stop)
  qed
qed


lemma spawn_loop_diverges:
  assumes "\<And>k. planar_dist (fst (draw_pose (advance (3 * k) g))) r < msd" and "d < msd"
  shows "spawn_loop msd r d po g = None"
proof (rule ccontr)
  assume "spawn_loop msd r d po g \<noteq> None"
  then obtain y where y: "spawn_loop msd r d po g = Some y" by auto
  have "\<not> (d < msd \<and> (\<forall>k. planar_dist (fst (draw_pose (advance (3 * k) g))) r < msd))"
  proof (rule spawn_loop.raw_induct[OF _ y,
        where P = "\<lambda>msd r d po g y.
          \<not> (d < msd \<and> (\<forall>k. planar_dist (fst (draw_pose (advance (3 * k) g))) r < msd))"],
        goal_cases)
    case (1 f msd r d po g y)
    show ?case
    proof
      assume a: "d < msd \<and> (\<forall>k. planar_dist (fst (draw_pose (advance (3 * k) g))) r < msd)"
      with 1(2) have "f msd r (planar_dist (fst (draw_pose g)) r) (Some (fst (draw_pose g)))
                  (snd (draw_pose g)) = Some y" by simp
      from 1(1)[OF this] have
        "\<not> (planar_dist (fst (draw_pose g)) r < msd \<and>
            (\<forall>k. planar_dist (fst (draw_pose (advance (3 * k) (snd (draw_pose g))))) r < msd))" .
      moreover from a have "planar_dist (fst (draw_pose (advance (3 * 0) g))) r < msd" by blast
      then have "planar_dist (fst (draw_pose g)) r < msd" by (simp add: advance_def)
      moreover have "\<forall>k. planar_dist (fst (draw_pose (advance (3 * k) (snd (draw_pose g))))) r < msd"
      proof
        fix k
        have "advance (3 * k) (snd (draw_pose g)) = advance (3 * Suc k) g"
          by (simp add: draw_pose_snd advance_advance add.commute)
        moreover from a have "planar_dist (fst (draw_pose (advance (3 * Suc k) g))) r < msd"
          by blast
        ultimately show "planar_dist (fst (draw_pose (advance (3 * k) (snd (draw_pose g))))) r < msd"
          by (simp only:)
      qed
      ultimately show False by blast
    qed
  qed
  with assms show False by blast
qed

subsection \<open>The stages of reset_opponent\<close>

lemma sample_opponent_policy_Inr:
  assumes "sample_opponent_policy s = Inr s'"
  shows "sim s' = sim s \<and> min_spawn_distance s' = min_spawn_distance s
         \<and> (\<exists>g. rng s' = Some g)"
  using assms unfolding sample_opponent_policy_def Let_def
  by (auto split: option.splits prod.splits list.splits if_splits)


lemma reset_noise_process_Inr:
  "reset_noise_process ext s = Inr s' \<Longrightarrow>
     sim s' = sim s \<and> min_spawn_distance s' = min_spawn_distance s"
  unfolding reset_noise_process_def
  by (auto split: option.splits prod.splits)


lemma reset_prologue_Inr:
  assumes "reset_prologue ext rng_arg s = Inr s2"
  shows "sim s2 = sim s \<and> min_spawn_distance s2 = min_spawn_distance s
         \<and> (\<exists>g. rng s2 = Some g)"
proof (cases rng_arg)
  case None
  with assms have "sample_opponent_policy (s\<lparr>opponent_vel := [0, 0]\<rparr>) = Inr s2"
    by (simp add: reset_prologue_def)
  from sample_opponent_policy_Inr[OF this] show ?thesis by simp
next
  case (Some g)
  with assms obtain s1 where 1: "reset_noise_process ext (s\<lparr>rng := Some g\<rparr>) = Inr s1"
    and 2: "sample_opponent_policy (s1\<lparr>opponent_vel := [0, 0]\<rparr>) = Inr s2"
    by (auto simp: reset_prologue_def split: sum.splits)
  from reset_noise_process_Inr[OF 1] sample_opponent_policy_Inr[OF 2] show ?thesis by simp
qed


lemma reset_opponent_after_prologue:
  assumes "reset_prologue ext rng_arg s = Inr s2" and "rng s2 = Some g"
  shows "reset_opponent ext rng_arg s =
     (case spawn_loop (min_spawn_distance s) (root_xpos (sim s)) 0 None g of
        None \<Rightarrow> None
      | Some (pose, g') \<Rightarrow> Some (place_opponent ext pose (s2\<lparr>rng := Some g'\<rparr>)))"
  using assms reset_prologue_Inr[OF assms(1)]
  by (simp add: reset_opponent_def)

lemma place_opponent_Some:
  "opponent_policy s = Some p \<Longrightarrow>
   place_opponent ext (Some po) s =
     Inr ((set_opponent_pose ext (if p = ''static_stationary'' then (0, - 5, 0) else po) s)
            \<lparr>opponent_vel := [0, 0]\<rparr>)"
  by (simp add: place_opponent_def)

lemma set_opponent_pose_policy:
  "opponent_policy (set_opponent_pose ext po s) = opponent_policy s"
  by (cases po) (simp add: set_opponent_pose_def)

lemma place_opponent_Inr:
  assumes "place_opponent ext pose s = Inr s'"
  shows "\<exists>p po. opponent_policy s = Some p \<and> pose = Some po \<and> opponent_policy s' = Some p \<and>
     s' = (set_opponent_pose ext (if p = ''static_stationary'' then (0, - 5, 0) else po) s)
            \<lparr>opponent_vel := [0, 0]\<rparr>"
proof (cases "opponent_policy s")
  case None
  with assms show ?thesis by (simp add: place_opponent_def)
next
  case (Some p)
  show ?thesis
  proof (cases pose)
    case None
    with assms Some show ?thesis by (simp add: place_opponent_def)
  next
    case po: (Some po)
    from assms have "s' = (set_opponent_pose ext
        (if p = ''static_stationary'' then (0, - 5, 0) else po) s)\<lparr>opponent_vel := [0, 0]\<rparr>"
      unfolding po place_opponent_Some[OF Some] by simp
    with Some po show ?thesis by (simp add: set_opponent_pose_policy)
  qed
qed

lemma reset_opponent_Inr:
  assumes "reset_opponent ext rng_arg s = Some (Inr s')"
  shows "\<exists>s2 g g' p po.
      reset_prologue ext rng_arg s = Inr s2 \<and> rng s2 = Some g
      \<and> spawn_loop (min_spawn_distance s) (root_xpos (sim s)) 0 None g = Some (Some po, g')
      \<and> opponent_policy s2 = Some p \<and> opponent_policy s' = Some p
      \<and> s' = (set_opponent_pose ext (if p = ''static_stationary'' then (0, - 5, 0) else po)
                 (s2\<lparr>rng := Some g'\<rparr>))\<lparr>opponent_vel := [0, 0]\<rparr>"
proof (cases "reset_prologue ext rng_arg s")
  case (Inl e)
  with assms show ?thesis by (simp add: reset_opponent_def)
next
  case (Inr s2)
  from reset_prologue_Inr[OF Inr] obtain g where g: "rng s2 = Some g"
    and k: "sim s2 = sim s" "min_spawn_distance s2 = min_spawn_distance s" by blast
  from assms obtain pose g' where
    l: "spawn_loop (min_spawn_distance s) (root_xpos (sim s)) 0 None g = Some (pose, g')"
    and pl: "place_opponent ext pose (s2\<lparr>rng := Some g'\<rparr>) = Inr s'"
    unfolding reset_opponent_after_prologue[OF Inr g]
    by (auto split: option.splits)
  from place_opponent_Inr[OF pl] obtain p po where
    "opponent_policy s2 = Some p" "pose = Some po" "opponent_policy s' = Some p"
    "s' = (set_opponent_pose ext (if p = ''static_stationary'' then (0, - 5, 0) else po)
                 (s2\<lparr>rng := Some g'\<rparr>))\<lparr>opponent_vel := [0, 0]\<rparr>"
    by auto
  with Inr g l show ?thesis by blast
qed

text \<open>
  Written out: the \<open>j\<close>-th candidate pose on the generator \<open>g\<close> is
  \<open>(-5 + 10 g(3j), -5 + 10 g(3j+1), -2\<pi> + 4\<pi> g(3j+2))\<close>, and the loop tests its Euclidean
  distance to the root. A loop that returns hands back the first candidate that passes
  the test.
\<close>

lemma advance_zero: "advance 0 g = g"
  by (simp add: advance_def)

lemma candidate_pose:
  "fst (draw_pose (advance n g)) =
     (- 5 + 10 * g n, - 5 + 10 * g (n + 1), - 2 * pi + 4 * pi * g (n + 2))"
  by (simp add: draw_pose_def uniform_def advance_def numeral_2_eq_2)

lemma candidate_dist:
  "planar_dist (fst (draw_pose (advance n g))) (rx, ry) =
     sqrt ((- 5 + 10 * g n - rx)\<^sup>2 + (- 5 + 10 * g (n + 1) - ry)\<^sup>2)"
  unfolding candidate_pose by (simp add: planar_dist_def)

lemma spawn_loop_first:
  assumes "msd \<le> planar_dist (fst (draw_pose (advance (3 * k) g))) r" and "d < msd"
  shows "\<exists>j\<le>k. spawn_loop msd r d po g
                  = Some (Some (fst (draw_pose (advance (3 * j) g))), advance (3 * Suc j) g)
           \<and> msd \<le> planar_dist (fst (draw_pose (advance (3 * j) g))) r
           \<and> (\<forall>i<j. planar_dist (fst (draw_pose (advance (3 * i) g))) r < msd)"
  using assms
proof (induction k arbitrary: g d po)
  case 0
  then have a: "msd \<le> planar_dist (fst (draw_pose g)) r" by (simp add: advance_zero)
  then have "spawn_loop msd r d po g = Some (Some (fst (draw_pose g)), advance 3 g)"
    by (simp add: spawn_loop_unfold[OF "0.prems"(2)] spawn_loop_stop)
  with a show ?case by (simp add: advance_zero)
next
  case (Suc k)
  let ?d = "planar_dist (fst (draw_pose g)) r"
  show ?case
  proof (cases "?d < msd")
    case False
    then have "spawn_loop msd r d po g = Some (Some (fst (draw_pose g)), advance 3 g)"
      by (simp add: spawn_loop_unfold[OF Suc.prems(2)] spawn_loop_stop)
    with False have "spawn_loop msd r d po g
                  = Some (Some (fst (draw_pose (advance (3 * 0) g))), advance (3 * Suc 0) g)
           \<and> msd \<le> planar_dist (fst (draw_pose (advance (3 * 0) g))) r
           \<and> (\<forall>i<0. planar_dist (fst (draw_pose (advance (3 * i) g))) r < msd)"
      by (simp add: advance_zero)
    then show ?thesis by blast
  next
    case True
    have sh: "\<And>i. advance (3 * i) (advance 3 g) = advance (3 * Suc i) g"
      by (simp add: advance_advance add.commute)
    from Suc.prems(1) have "msd \<le> planar_dist (fst (draw_pose (advance (3 * k) (advance 3 g)))) r"
      by (simp only: sh)
    from Suc.IH[OF this True, of "Some (fst (draw_pose g))"]
    obtain j where j: "j \<le> k"
      and l: "spawn_loop msd r ?d (Some (fst (draw_pose g))) (advance 3 g)
                = Some (Some (fst (draw_pose (advance (3 * Suc j) g))), advance (3 * Suc (Suc j)) g)"
      and acc: "msd \<le> planar_dist (fst (draw_pose (advance (3 * Suc j) g))) r"
      and rej: "\<forall>i<j. planar_dist (fst (draw_pose (advance (3 * Suc i) g))) r < msd"
      unfolding sh by blast
    have "\<forall>i<Suc j. planar_dist (fst (draw_pose (advance (3 * i) g))) r < msd"
    proof (intro allI impI)
      fix i
      assume "i < Suc j"
      show "planar_dist (fst (draw_pose (advance (3 * i) g))) r < msd"
      proof (cases i)
        case 0
        with True show ?thesis by (simp add: advance_zero)
      next
        case (Suc i')
        with \<open>i < Suc j\<close> rej show ?thesis by simp
      qed
    qed
    moreover have "spawn_loop msd r d po g
        = Some (Some (fst (draw_pose (advance (3 * Suc j) g))), advance (3 * Suc (Suc j)) g)"
      unfolding spawn_loop_unfold[OF Suc.prems(2)] by (rule l)
    moreover from j have "Suc j \<le> Suc k" by simp
    ultimately show ?thesis using acc by blast
  qed
qed

lemma spawn_loop_Some_first:
  assumes "spawn_loop msd r d po g = Some y" and "d < msd"
  shows "\<exists>j. y = (Some (fst (draw_pose (advance (3 * j) g))), advance (3 * Suc j) g)
           \<and> msd \<le> planar_dist (fst (draw_pose (advance (3 * j) g))) r
           \<and> (\<forall>i<j. planar_dist (fst (draw_pose (advance (3 * i) g))) r < msd)"
proof -
  have "\<exists>k. msd \<le> planar_dist (fst (draw_pose (advance (3 * k) g))) r"
  proof (rule ccontr)
    assume "\<not> (\<exists>k. msd \<le> planar_dist (fst (draw_pose (advance (3 * k) g))) r)"
    then have "\<And>k. planar_dist (fst (draw_pose (advance (3 * k) g))) r < msd"
      by (simp add: not_le)
    from spawn_loop_diverges[OF this assms(2)] assms(1) show False by simp
  qed
  then obtain k where "msd \<le> planar_dist (fst (draw_pose (advance (3 * k) g))) r" ..
  from spawn_loop_first[OF this assms(2), of po] assms(1) show ?thesis by auto
qed

lemma placed_pose:
  "sim ((set_opponent_pose ext (x, y, a) s)\<lparr>opponent_vel := v\<rparr>)
     = (sim s)\<lparr>mocap_pos := (x, y), mocap_quat := euler2quat_yaw ext a\<rparr>"
  by (simp add: set_opponent_pose_def)

lemma unit_draw_box:
  assumes "unit_draws g"
  shows "- 5 \<le> - 5 + 10 * g n \<and> - 5 + 10 * g n \<le> 5
         \<and> - 2 * pi \<le> - 2 * pi + 4 * pi * g n \<and> - 2 * pi + 4 * pi * g n \<le> 2 * pi"
proof -
  from assms have u: "0 \<le> g n" "g n < 1" by (simp_all add: unit_draws_def)
  have "0 \<le> 4 * pi * g n" using u by simp
  moreover have "4 * pi * g n \<le> 4 * pi * 1"
    by (rule mult_left_mono) (use u in simp_all)
  ultimately show ?thesis using u by simp
qed

subsection \<open>C4: the spawn distance\<close>

text \<open>
  The concrete opponent: every draw is \<open>1/2\<close>, so the policy drawn is \<open>stationary\<close> and
  the first candidate pose is \<open>(0, 0, 0)\<close>, at distance \<open>5\<close> from the root \<open>(3, 4)\<close>.
\<close>

lemma advance_const: "advance k (\<lambda>n. c) = (\<lambda>n. c)"
  by (simp add: advance_def)

lemma draw_pose_half: "draw_pose (\<lambda>n. 1 / 2) = ((0, 0, 0), (\<lambda>n. 1 / 2))"
  by (simp add: draw_pose_def uniform_def advance_const)

lemma planar_dist_345: "planar_dist (0, 0, a) (3, 4) = 5"
proof -
  have "sqrt ((0 - 3)\<^sup>2 + (0 - 4)\<^sup>2) = sqrt (5\<^sup>2)" by simp
  also have "\<dots> = 5" by (simp del: power2_eq_square)
  finally show ?thesis by (simp add: planar_dist_def)
qed

lemma opp0_prologue:
  "reset_prologue yaw_ext None opp0 = Inr (opp0\<lparr>opponent_policy := Some ''stationary''\<rparr>)"
  by (simp add: reset_prologue_def sample_opponent_policy_def uniform_def advance_const opp0_def)

lemma opp0_loop:
  "spawn_loop 2 (3, 4) 0 None (\<lambda>n. 1 / 2) = Some (Some (0, 0, 0), (\<lambda>n. 1 / 2))"
proof -
  have "spawn_loop 2 (3, 4) 0 None (\<lambda>n. 1 / 2)
        = spawn_loop 2 (3, 4) 5 (Some (0, 0, 0)) (\<lambda>n. 1 / 2)"
    by (subst spawn_loop.simps) (simp add: draw_pose_half planar_dist_345)
  also have "\<dots> = Some (Some (0, 0, 0), (\<lambda>n. 1 / 2))"
    by (rule spawn_loop_stop) simp
  finally show ?thesis .
qed

lemma opp0_reset:
  "reset_opponent yaw_ext None opp0 = Some (Inr (opp0\<lparr>opponent_policy := Some ''stationary''\<rparr>))"
proof -
  have "reset_opponent yaw_ext None opp0 =
     (case spawn_loop 2 (3, 4) 0 None (\<lambda>n. 1 / 2) of
        None \<Rightarrow> None
      | Some (pose, g') \<Rightarrow>
          Some (place_opponent yaw_ext pose (opp0\<lparr>opponent_policy := Some ''stationary'', rng := Some g'\<rparr>)))"
    by (simp add: reset_opponent_def opp0_prologue) (simp add: opp0_def)
  then show ?thesis
    unfolding opp0_loop
    by (simp add: place_opponent_def set_opponent_pose_def) (simp add: opp0_def yaw_ext_def)
qed

text \<open>
  Claim C4 as stated covers every call with \<open>min_spawn_distance > 0\<close> and a policy other
  than \<open>static_stationary\<close>. The loop has no bound and ends only on a sample that is far
  enough: with \<open>min_spawn_distance = 100\<close>, the root at the origin and every draw \<open>1/2\<close>,
  the policy drawn is \<open>stationary\<close>, every sampled pose is the origin, and the call never
  returns, so that no spawn position exists to be at the distance claimed.
\<close>

theorem spawn_never_far_enough_counterexample:
  "0 < min_spawn_distance
         (opp0\<lparr>sim := \<lparr>mocap_pos = (1, 1), mocap_quat = 0, root_xpos = (0, 0)\<rparr>,
               min_spawn_distance := 100\<rparr>)
   \<and> reset_prologue yaw_ext None
         (opp0\<lparr>sim := \<lparr>mocap_pos = (1, 1), mocap_quat = 0, root_xpos = (0, 0)\<rparr>,
               min_spawn_distance := 100\<rparr>)
       = Inr (opp0\<lparr>sim := \<lparr>mocap_pos = (1, 1), mocap_quat = 0, root_xpos = (0, 0)\<rparr>,
                   min_spawn_distance := 100, opponent_policy := Some ''stationary''\<rparr>)
   \<and> ''stationary'' \<noteq> ''static_stationary''
   \<and> reset_opponent yaw_ext None
         (opp0\<lparr>sim := \<lparr>mocap_pos = (1, 1), mocap_quat = 0, root_xpos = (0, 0)\<rparr>,
               min_spawn_distance := 100\<rparr>) = None"
proof -
  let ?s = "opp0\<lparr>sim := \<lparr>mocap_pos = (1, 1), mocap_quat = 0, root_xpos = (0, 0)\<rparr>,
                 min_spawn_distance := 100\<rparr>"
  have m: "0 < min_spawn_distance ?s" by simp
  have p: "reset_prologue yaw_ext None ?s = Inr (?s\<lparr>opponent_policy := Some ''stationary''\<rparr>)"
    by (simp add: reset_prologue_def sample_opponent_policy_def uniform_def advance_const opp0_def)
  have g: "rng (?s\<lparr>opponent_policy := Some ''stationary''\<rparr>) = Some (\<lambda>n. 1 / 2)"
    by (simp add: opp0_def)
  have "spawn_loop 100 (0, 0) 0 None (\<lambda>n. 1 / 2) = None"
    by (rule spawn_loop_diverges) (simp_all add: advance_const draw_pose_half planar_dist_def)
  then have r: "reset_opponent yaw_ext None ?s = None"
    unfolding reset_opponent_after_prologue[OF p g] by simp
  have n: "''stationary'' \<noteq> ''static_stationary''" by simp
  from m p n r show ?thesis by (intro conjI)
qed

text \<open>
  Claim C4, amended. With \<open>min_spawn_distance > 0\<close>, a sampled policy other than
  \<open>static_stationary\<close> and some sample \<open>k\<close> of the loop at Euclidean planar distance at
  least \<open>min_spawn_distance\<close> from the agent's root \<open>(rx, ry)\<close>, \<^verbatim>\<open>reset_opponent\<close>
  returns; the pose it writes is the first such sample \<open>j \<le> k\<close>, every earlier sample being
  too near, where the \<open>j\<close>-th sample is \<open>x = -5 + 10 u\<close>, \<open>y = -5 + 10 u'\<close>,
  \<open>angle = -2\<pi> + 4\<pi> u''\<close> for the three draws \<open>u, u', u''\<close> it consumes; and the Euclidean
  planar distance \<open>sqrt ((x - rx)\<^sup>2 + (y - ry)\<^sup>2)\<close> of the written position to the root is
  at least \<open>min_spawn_distance\<close>. Every call that returns with such a policy has written
  a pose of this kind. Unit-interval draws put each sample in
  \<open>[-5, 5] \<times> [-5, 5] \<times> [-2\<pi>, 2\<pi>]\<close>.
\<close>

theorem spawn_distance_when_sampling_ends:
  "(0 < min_spawn_distance s \<and> root_xpos (sim s) = (rx, ry)
      \<and> reset_prologue ext rng_arg s = Inr s2 \<and> rng s2 = Some g
      \<and> opponent_policy s2 = Some p \<and> p \<noteq> ''static_stationary''
      \<and> min_spawn_distance s
          \<le> sqrt ((- 5 + 10 * g (3 * k) - rx)\<^sup>2 + (- 5 + 10 * g (3 * k + 1) - ry)\<^sup>2)
    \<longrightarrow> (\<exists>s' j. j \<le> k \<and> reset_opponent ext rng_arg s = Some (Inr s')
            \<and> mocap_pos (sim s') = (- 5 + 10 * g (3 * j), - 5 + 10 * g (3 * j + 1))
            \<and> mocap_quat (sim s') = euler2quat_yaw ext (- 2 * pi + 4 * pi * g (3 * j + 2))
            \<and> root_xpos (sim s') = (rx, ry)
            \<and> min_spawn_distance s
                \<le> sqrt ((fst (mocap_pos (sim s')) - rx)\<^sup>2 + (snd (mocap_pos (sim s')) - ry)\<^sup>2)
            \<and> (\<forall>i<j. sqrt ((- 5 + 10 * g (3 * i) - rx)\<^sup>2 + (- 5 + 10 * g (3 * i + 1) - ry)\<^sup>2)
                        < min_spawn_distance s)))
   \<and> (0 < min_spawn_distance s \<and> root_xpos (sim s) = (rx, ry)
        \<and> reset_opponent ext rng_arg s = Some (Inr s')
        \<and> opponent_policy s' \<noteq> Some ''static_stationary''
      \<longrightarrow> min_spawn_distance s
            \<le> sqrt ((fst (mocap_pos (sim s')) - rx)\<^sup>2 + (snd (mocap_pos (sim s')) - ry)\<^sup>2)
          \<and> root_xpos (sim s') = (rx, ry)
          \<and> (\<exists>s2 g j. reset_prologue ext rng_arg s = Inr s2 \<and> rng s2 = Some g
                \<and> mocap_pos (sim s') = (- 5 + 10 * g (3 * j), - 5 + 10 * g (3 * j + 1))
                \<and> mocap_quat (sim s') = euler2quat_yaw ext (- 2 * pi + 4 * pi * g (3 * j + 2))
                \<and> (\<forall>i<j. sqrt ((- 5 + 10 * g (3 * i) - rx)\<^sup>2
                                + (- 5 + 10 * g (3 * i + 1) - ry)\<^sup>2)
                            < min_spawn_distance s)))
   \<and> (unit_draws g0 \<longrightarrow>
        - 5 \<le> - 5 + 10 * g0 n \<and> - 5 + 10 * g0 n \<le> 5
        \<and> - 2 * pi \<le> - 2 * pi + 4 * pi * g0 n \<and> - 2 * pi + 4 * pi * g0 n \<le> 2 * pi)"
proof -
  {
    assume a: "0 < min_spawn_distance s \<and> root_xpos (sim s) = (rx, ry)
      \<and> reset_prologue ext rng_arg s = Inr s2 \<and> rng s2 = Some g
      \<and> opponent_policy s2 = Some p \<and> p \<noteq> ''static_stationary''
      \<and> min_spawn_distance s
          \<le> sqrt ((- 5 + 10 * g (3 * k) - rx)\<^sup>2 + (- 5 + 10 * g (3 * k + 1) - ry)\<^sup>2)"
    then have far: "min_spawn_distance s
        \<le> planar_dist (fst (draw_pose (advance (3 * k) g))) (rx, ry)"
      by (simp only: candidate_dist)
    from a have m: "0 < min_spawn_distance s" by blast
    from spawn_loop_first[OF far m, of None] obtain j where j: "j \<le> k"
      and l: "spawn_loop (min_spawn_distance s) (rx, ry) 0 None g
                = Some (Some (fst (draw_pose (advance (3 * j) g))), advance (3 * Suc j) g)"
      and acc: "min_spawn_distance s \<le> planar_dist (fst (draw_pose (advance (3 * j) g))) (rx, ry)"
      and rej: "\<forall>i<j. planar_dist (fst (draw_pose (advance (3 * i) g))) (rx, ry)
                        < min_spawn_distance s"
      by blast
    let ?po = "(- 5 + 10 * g (3 * j), - 5 + 10 * g (3 * j + 1), - 2 * pi + 4 * pi * g (3 * j + 2))"
    let ?s' = "(set_opponent_pose ext ?po (s2\<lparr>rng := Some (advance (3 * Suc j) g)\<rparr>))
                 \<lparr>opponent_vel := [0, 0]\<rparr>"
    from a have k: "sim s2 = sim s" using reset_prologue_Inr by blast
    from a have pol: "opponent_policy (s2\<lparr>rng := Some (advance (3 * Suc j) g)\<rparr>) = Some p"
      by simp
    from a have pr: "reset_prologue ext rng_arg s = Inr s2" and g: "rng s2 = Some g"
      and rt: "root_xpos (sim s) = (rx, ry)" and ns: "p \<noteq> ''static_stationary''" by blast+
    have pl: "place_opponent ext (Some ?po) (s2\<lparr>rng := Some (advance (3 * Suc j) g)\<rparr>) = Inr ?s'"
      using place_opponent_Some[OF pol, of ext ?po] ns by (simp only: if_False)
    have r: "reset_opponent ext rng_arg s = Some (Inr ?s')"
      unfolding reset_opponent_after_prologue[OF pr g] rt l candidate_pose
      by (simp only: option.case prod.case pl)
    have sm: "sim ?s' = (sim s)\<lparr>mocap_pos := (- 5 + 10 * g (3 * j), - 5 + 10 * g (3 * j + 1)),
                               mocap_quat := euler2quat_yaw ext (- 2 * pi + 4 * pi * g (3 * j + 2))\<rparr>"
      unfolding placed_pose by (simp add: k)
    from acc have d: "min_spawn_distance s
        \<le> sqrt ((- 5 + 10 * g (3 * j) - rx)\<^sup>2 + (- 5 + 10 * g (3 * j + 1) - ry)\<^sup>2)"
      by (simp only: candidate_dist)
    from rej have rej': "\<forall>i<j. sqrt ((- 5 + 10 * g (3 * i) - rx)\<^sup>2
                                + (- 5 + 10 * g (3 * i + 1) - ry)\<^sup>2) < min_spawn_distance s"
      by (simp only: candidate_dist)
    have "j \<le> k \<and> reset_opponent ext rng_arg s = Some (Inr ?s')
            \<and> mocap_pos (sim ?s') = (- 5 + 10 * g (3 * j), - 5 + 10 * g (3 * j + 1))
            \<and> mocap_quat (sim ?s') = euler2quat_yaw ext (- 2 * pi + 4 * pi * g (3 * j + 2))
            \<and> root_xpos (sim ?s') = (rx, ry)
            \<and> min_spawn_distance s
                \<le> sqrt ((fst (mocap_pos (sim ?s')) - rx)\<^sup>2 + (snd (mocap_pos (sim ?s')) - ry)\<^sup>2)
            \<and> (\<forall>i<j. sqrt ((- 5 + 10 * g (3 * i) - rx)\<^sup>2 + (- 5 + 10 * g (3 * i + 1) - ry)\<^sup>2)
                        < min_spawn_distance s)"
      using j r d rej' rt unfolding sm by simp
    then have "\<exists>s' j. j \<le> k \<and> reset_opponent ext rng_arg s = Some (Inr s')
            \<and> mocap_pos (sim s') = (- 5 + 10 * g (3 * j), - 5 + 10 * g (3 * j + 1))
            \<and> mocap_quat (sim s') = euler2quat_yaw ext (- 2 * pi + 4 * pi * g (3 * j + 2))
            \<and> root_xpos (sim s') = (rx, ry)
            \<and> min_spawn_distance s
                \<le> sqrt ((fst (mocap_pos (sim s')) - rx)\<^sup>2 + (snd (mocap_pos (sim s')) - ry)\<^sup>2)
            \<and> (\<forall>i<j. sqrt ((- 5 + 10 * g (3 * i) - rx)\<^sup>2 + (- 5 + 10 * g (3 * i + 1) - ry)\<^sup>2)
                        < min_spawn_distance s)"
      by blast
  }
  note total = this
  {
    assume a: "0 < min_spawn_distance s \<and> root_xpos (sim s) = (rx, ry)
        \<and> reset_opponent ext rng_arg s = Some (Inr s')
        \<and> opponent_policy s' \<noteq> Some ''static_stationary''"
    then obtain s2 g g' p po where
      pr: "reset_prologue ext rng_arg s = Inr s2" and g: "rng s2 = Some g"
      and l: "spawn_loop (min_spawn_distance s) (root_xpos (sim s)) 0 None g = Some (Some po, g')"
      and p: "opponent_policy s' = Some p"
      and s': "s' = (set_opponent_pose ext (if p = ''static_stationary'' then (0, - 5, 0) else po)
                   (s2\<lparr>rng := Some g'\<rparr>))\<lparr>opponent_vel := [0, 0]\<rparr>"
      using reset_opponent_Inr[of ext rng_arg s s'] by blast
    from a p have ns: "p \<noteq> ''static_stationary''" by simp
    from a have m: "0 < min_spawn_distance s" and rt: "root_xpos (sim s) = (rx, ry)" by blast+
    from pr have k: "sim s2 = sim s" using reset_prologue_Inr by blast
    from spawn_loop_Some_first[OF l[unfolded rt] m] obtain j where
      po: "po = fst (draw_pose (advance (3 * j) g))"
      and acc: "min_spawn_distance s \<le> planar_dist (fst (draw_pose (advance (3 * j) g))) (rx, ry)"
      and rej: "\<forall>i<j. planar_dist (fst (draw_pose (advance (3 * i) g))) (rx, ry)
                        < min_spawn_distance s"
      by auto
    have sm: "sim s' = (sim s)\<lparr>mocap_pos := (- 5 + 10 * g (3 * j), - 5 + 10 * g (3 * j + 1)),
                               mocap_quat := euler2quat_yaw ext (- 2 * pi + 4 * pi * g (3 * j + 2))\<rparr>"
      unfolding s' po candidate_pose using ns by (simp add: placed_pose k)
    from acc have d: "min_spawn_distance s
        \<le> sqrt ((- 5 + 10 * g (3 * j) - rx)\<^sup>2 + (- 5 + 10 * g (3 * j + 1) - ry)\<^sup>2)"
      by (simp only: candidate_dist)
    from rej have rej': "\<forall>i<j. sqrt ((- 5 + 10 * g (3 * i) - rx)\<^sup>2
                                + (- 5 + 10 * g (3 * i + 1) - ry)\<^sup>2) < min_spawn_distance s"
      by (simp only: candidate_dist)
    have e: "reset_prologue ext rng_arg s = Inr s2 \<and> rng s2 = Some g
                \<and> mocap_pos (sim s') = (- 5 + 10 * g (3 * j), - 5 + 10 * g (3 * j + 1))
                \<and> mocap_quat (sim s') = euler2quat_yaw ext (- 2 * pi + 4 * pi * g (3 * j + 2))
                \<and> (\<forall>i<j. sqrt ((- 5 + 10 * g (3 * i) - rx)\<^sup>2
                                + (- 5 + 10 * g (3 * i + 1) - ry)\<^sup>2)
                            < min_spawn_distance s)"
      using pr g rej' unfolding sm by simp
    have "min_spawn_distance s
            \<le> sqrt ((fst (mocap_pos (sim s')) - rx)\<^sup>2 + (snd (mocap_pos (sim s')) - ry)\<^sup>2)
          \<and> root_xpos (sim s') = (rx, ry)"
      using d rt unfolding sm by simp
    with e have "min_spawn_distance s
            \<le> sqrt ((fst (mocap_pos (sim s')) - rx)\<^sup>2 + (snd (mocap_pos (sim s')) - ry)\<^sup>2)
          \<and> root_xpos (sim s') = (rx, ry)
          \<and> (\<exists>s2 g j. reset_prologue ext rng_arg s = Inr s2 \<and> rng s2 = Some g
                \<and> mocap_pos (sim s') = (- 5 + 10 * g (3 * j), - 5 + 10 * g (3 * j + 1))
                \<and> mocap_quat (sim s') = euler2quat_yaw ext (- 2 * pi + 4 * pi * g (3 * j + 2))
                \<and> (\<forall>i<j. sqrt ((- 5 + 10 * g (3 * i) - rx)\<^sup>2
                                + (- 5 + 10 * g (3 * i + 1) - ry)\<^sup>2)
                            < min_spawn_distance s))"
      by blast
  }
  note partial = this
  {
    assume u: "unit_draws g0"
    note unit_draw_box[OF u, of n]
  }
  note box = this
  show ?thesis
    by (intro conjI; rule impI; (erule total | erule partial | erule box))
qed

text \<open>
  An instance with one re-sampling: the first sample \<open>(3, 4)\<close> is the root itself and is
  refused, the second is the origin, at distance \<open>5\<close>, and is the pose written. The
  second and third part of the statement are taken at the opponent whose draws are all
  \<open>1/2\<close>.
\<close>

theorem spawn_distance_when_sampling_ends_witness:
  "0 < min_spawn_distance opp0 \<and> root_xpos (sim opp0) = (3, 4)
   \<and> reset_prologue yaw_ext None
        (opp0\<lparr>rng := Some (\<lambda>n. if n = 1 then 4 / 5 else if n = 2 then 9 / 10 else 1 / 2)\<rparr>)
      = Inr (opp0\<lparr>rng := Some (\<lambda>n. if n = 0 then 4 / 5 else if n = 1 then 9 / 10 else 1 / 2),
                  opponent_policy := Some ''stationary''\<rparr>)
   \<and> sqrt ((- 5 + 10 * (4 / 5) - 3)\<^sup>2 + (- 5 + 10 * (9 / 10) - 4)\<^sup>2) < 2
   \<and> 2 \<le> sqrt ((- 5 + 10 * (1 / 2) - 3)\<^sup>2 + (- 5 + 10 * (1 / 2) - 4)\<^sup>2)
   \<and> (\<exists>s'. reset_opponent yaw_ext None
               (opp0\<lparr>rng := Some (\<lambda>n. if n = 1 then 4 / 5 else if n = 2 then 9 / 10 else 1 / 2)\<rparr>)
             = Some (Inr s')
          \<and> mocap_pos (sim s') = (0, 0) \<and> mocap_quat (sim s') = 0
          \<and> root_xpos (sim s') = (3, 4))
   \<and> reset_opponent yaw_ext None opp0 = Some (Inr (opp0\<lparr>opponent_policy := Some ''stationary''\<rparr>))
   \<and> min_spawn_distance opp0 \<le> sqrt ((0 - 3)\<^sup>2 + (0 - 4)\<^sup>2)
   \<and> unit_draws (\<lambda>n. 1 / 2) \<and> - 5 \<le> - 5 + 10 * (1 / 2 :: real) \<and> - 5 + 10 * (1 / 2 :: real) \<le> 5"
proof -
  let ?g = "\<lambda>n::nat. if n = 1 then 4 / 5 else if n = 2 then 9 / 10 else (1 / 2 :: real)"
  let ?g1 = "\<lambda>n::nat. if n = 0 then 4 / 5 else if n = 1 then 9 / 10 else (1 / 2 :: real)"
  let ?s = "opp0\<lparr>rng := Some ?g\<rparr>"
  let ?s2 = "opp0\<lparr>rng := Some ?g1, opponent_policy := Some ''stationary''\<rparr>"
  have m0: "0 < min_spawn_distance opp0" and r0: "root_xpos (sim opp0) = (3, 4)"
    by (simp_all add: opp0_def)
  have m: "0 < min_spawn_distance ?s" and rt: "root_xpos (sim ?s) = (3, 4)"
    and msd: "min_spawn_distance opp0 = 2"
    by (simp_all add: opp0_def)
  have a: "advance (Suc 0) (\<lambda>n. if n = Suc 0 then 4 / 5 else if n = 2 then 9 / 10 else 1 / 2)
      = (\<lambda>n. if n = 0 then 4 / 5 else if n = 1 then 9 / 10 else (1 / 2 :: real))"
    by (auto simp: advance_def fun_eq_iff)
  have pr: "reset_prologue yaw_ext None ?s = Inr ?s2"
    by (simp add: reset_prologue_def sample_opponent_policy_def uniform_def a opp0_def)
  have g: "rng ?s2 = Some ?g1" by simp
  have q: "opponent_policy ?s2 = Some ''stationary''" "''stationary'' \<noteq> ''static_stationary''"
    by simp_all
  have s25: "sqrt 25 = 5"
  proof -
    have "sqrt (5\<^sup>2) = 5" by (simp del: power2_eq_square)
    then show ?thesis by simp
  qed
  have near: "sqrt ((- 5 + 10 * (4 / 5) - 3)\<^sup>2 + (- 5 + 10 * (9 / 10) - 4)\<^sup>2) < 2" by simp
  have far: "2 \<le> sqrt ((- 5 + 10 * (1 / 2) - 3)\<^sup>2 + (- 5 + 10 * (1 / 2) - 4)\<^sup>2)"
    by (simp add: s25)
  have far1: "min_spawn_distance ?s
      \<le> sqrt ((- 5 + 10 * ?g1 (3 * 1) - 3)\<^sup>2 + (- 5 + 10 * ?g1 (3 * 1 + 1) - 4)\<^sup>2)"
    using far by (simp add: msd)
  note c = spawn_distance_when_sampling_ends[of ?s 3 4 yaw_ext None ?s2 ?g1 "''stationary''" 1]
  have "\<exists>s' j. j \<le> 1 \<and> reset_opponent yaw_ext None ?s = Some (Inr s')
            \<and> mocap_pos (sim s') = (- 5 + 10 * ?g1 (3 * j), - 5 + 10 * ?g1 (3 * j + 1))
            \<and> mocap_quat (sim s') = euler2quat_yaw yaw_ext (- 2 * pi + 4 * pi * ?g1 (3 * j + 2))
            \<and> root_xpos (sim s') = (3, 4)
            \<and> min_spawn_distance ?s
                \<le> sqrt ((fst (mocap_pos (sim s')) - 3)\<^sup>2 + (snd (mocap_pos (sim s')) - 4)\<^sup>2)
            \<and> (\<forall>i<j. sqrt ((- 5 + 10 * ?g1 (3 * i) - 3)\<^sup>2 + (- 5 + 10 * ?g1 (3 * i + 1) - 4)\<^sup>2)
                        < min_spawn_distance ?s)"
    by (rule mp[OF c[THEN conjunct1]]) (intro conjI m rt pr g q far1)
  then obtain s' j where j: "j \<le> 1"
    and r: "reset_opponent yaw_ext None ?s = Some (Inr s')"
    and mpos: "mocap_pos (sim s') = (- 5 + 10 * ?g1 (3 * j), - 5 + 10 * ?g1 (3 * j + 1))"
    and mq: "mocap_quat (sim s') = euler2quat_yaw yaw_ext (- 2 * pi + 4 * pi * ?g1 (3 * j + 2))"
    and rs: "root_xpos (sim s') = (3, 4)"
    and d: "min_spawn_distance ?s
                \<le> sqrt ((fst (mocap_pos (sim s')) - 3)\<^sup>2 + (snd (mocap_pos (sim s')) - 4)\<^sup>2)"
    by blast
  have j1: "j = 1"
  proof (rule ccontr)
    assume "j \<noteq> 1"
    with j have "j = 0" by simp
    with mpos d show False by (simp add: msd)
  qed
  have t: "\<exists>s'. reset_opponent yaw_ext None ?s = Some (Inr s')
          \<and> mocap_pos (sim s') = (0, 0) \<and> mocap_quat (sim s') = 0 \<and> root_xpos (sim s') = (3, 4)"
    using r mpos mq rs unfolding j1 by (simp add: yaw_ext_def)
  let ?t = "opp0\<lparr>opponent_policy := Some ''stationary''\<rparr>"
  have pt: "opponent_policy ?t \<noteq> Some ''static_stationary''" by simp
  note c2 = spawn_distance_when_sampling_ends[of opp0 3 4 yaw_ext None _ _ _ _ ?t "\<lambda>n. 1 / 2" 0]
  have "min_spawn_distance opp0
            \<le> sqrt ((fst (mocap_pos (sim ?t)) - 3)\<^sup>2 + (snd (mocap_pos (sim ?t)) - 4)\<^sup>2)"
    by (rule mp[OF c2[THEN conjunct2, THEN conjunct1], THEN conjunct1])
       (intro conjI m0 r0 opp0_reset pt)
  then have d2: "min_spawn_distance opp0 \<le> sqrt ((0 - 3)\<^sup>2 + (0 - 4)\<^sup>2)"
    by (simp add: opp0_def)
  have u: "unit_draws (\<lambda>n. 1 / 2)" by (simp add: unit_draws_def)
  from mp[OF c2[THEN conjunct2, THEN conjunct2] u]
  have b: "- 5 \<le> - 5 + 10 * (1 / 2 :: real)" "- 5 + 10 * (1 / 2 :: real) \<le> 5" by simp_all
  from m0 r0 pr near far t opp0_reset d2 u b show ?thesis by (intro conjI)
qed

subsection \<open>C5: the static-stationary override\<close>

text \<open>
  Claim C5 as stated promises the pose \<open>(0, -5, 0)\<close> for the policy \<open>static_stationary\<close>
  whatever \<open>min_spawn_distance\<close> is. The override is written after the sampling loop,
  so it needs the loop to end: with \<open>min_spawn_distance = 100\<close>, the root at the
  origin and every draw \<open>1/2\<close>, the policy drawn is \<open>static_stationary\<close>, every candidate
  pose is the origin, and the call never returns.
\<close>

theorem static_stationary_unreachable_spawn_counterexample:
  "reset_prologue yaw_ext None
      (opp0\<lparr>sim := \<lparr>mocap_pos = (1, 1), mocap_quat = 0, root_xpos = (0, 0)\<rparr>,
            opponent_probabilities := [1, 0, 0], min_spawn_distance := 100\<rparr>)
     = Inr (opp0\<lparr>sim := \<lparr>mocap_pos = (1, 1), mocap_quat = 0, root_xpos = (0, 0)\<rparr>,
                 opponent_probabilities := [1, 0, 0], min_spawn_distance := 100,
                 opponent_policy := Some ''static_stationary''\<rparr>)
   \<and> reset_opponent yaw_ext None
      (opp0\<lparr>sim := \<lparr>mocap_pos = (1, 1), mocap_quat = 0, root_xpos = (0, 0)\<rparr>,
            opponent_probabilities := [1, 0, 0], min_spawn_distance := 100\<rparr>) = None"
proof -
  let ?s = "opp0\<lparr>sim := \<lparr>mocap_pos = (1, 1), mocap_quat = 0, root_xpos = (0, 0)\<rparr>,
            opponent_probabilities := [1, 0, 0], min_spawn_distance := 100\<rparr>"
  have p: "reset_prologue yaw_ext None ?s = Inr (?s\<lparr>opponent_policy := Some ''static_stationary''\<rparr>)"
    by (simp add: reset_prologue_def sample_opponent_policy_def uniform_def advance_const opp0_def)
  have g: "rng (?s\<lparr>opponent_policy := Some ''static_stationary''\<rparr>) = Some (\<lambda>n. 1 / 2)"
    by (simp add: opp0_def)
  have "spawn_loop 100 (0, 0) 0 None (\<lambda>n. 1 / 2) = None"
    by (rule spawn_loop_diverges) (simp_all add: advance_const draw_pose_half planar_dist_def)
  then have "reset_opponent yaw_ext None ?s = None"
    unfolding reset_opponent_after_prologue[OF p g] by simp
  with p show ?thesis by simp
qed

text \<open>
  Claim C5, amended. When the sampled policy is \<open>static_stationary\<close>,
  \<open>min_spawn_distance > 0\<close> and some candidate pose of the loop lies at least
  \<open>min_spawn_distance\<close> away from the root, \<^verbatim>\<open>reset_opponent\<close> returns and the pose written
  is exactly \<open>(0, -5, 0)\<close>; and every call that returns with this policy has written
  exactly that pose, whatever the agent's position and the sampled candidates.
\<close>

theorem static_stationary_override:
  "(0 < min_spawn_distance s \<and> reset_prologue ext rng_arg s = Inr s2 \<and> rng s2 = Some g
      \<and> opponent_policy s2 = Some ''static_stationary''
      \<and> min_spawn_distance s \<le> planar_dist (fst (draw_pose (advance (3 * k) g))) (root_xpos (sim s))
    \<longrightarrow> (\<exists>s'. reset_opponent ext rng_arg s = Some (Inr s')
            \<and> sim s' = (sim s)\<lparr>mocap_pos := (0, - 5), mocap_quat := euler2quat_yaw ext 0\<rparr>))
   \<and> (reset_opponent ext rng_arg s = Some (Inr s')
        \<and> opponent_policy s' = Some ''static_stationary''
      \<longrightarrow> sim s' = (sim s)\<lparr>mocap_pos := (0, - 5), mocap_quat := euler2quat_yaw ext 0\<rparr>)"
proof -
  {
    assume a: "0 < min_spawn_distance s \<and> reset_prologue ext rng_arg s = Inr s2 \<and> rng s2 = Some g
      \<and> opponent_policy s2 = Some ''static_stationary''
      \<and> min_spawn_distance s \<le> planar_dist (fst (draw_pose (advance (3 * k) g))) (root_xpos (sim s))"
    then obtain po g' where
      l: "spawn_loop (min_spawn_distance s) (root_xpos (sim s)) 0 None g = Some (Some po, g')"
      using spawn_loop_terminates[of "min_spawn_distance s" k g "root_xpos (sim s)" 0 None]
      by blast
    from a have k: "sim s2 = sim s" using reset_prologue_Inr by blast
    from a have pol: "opponent_policy (s2\<lparr>rng := Some g'\<rparr>) = Some ''static_stationary''" by simp
    from a have "reset_opponent ext rng_arg s =
        Some (Inr ((set_opponent_pose ext (0, - 5, 0) (s2\<lparr>rng := Some g'\<rparr>))\<lparr>opponent_vel := [0, 0]\<rparr>))"
      by (simp add: reset_opponent_after_prologue[of ext rng_arg s s2 g] l
            place_opponent_Some[OF pol])
    moreover have "sim ((set_opponent_pose ext (0, - 5, 0) (s2\<lparr>rng := Some g'\<rparr>))\<lparr>opponent_vel := [0, 0]\<rparr>)
        = (sim s)\<lparr>mocap_pos := (0, - 5), mocap_quat := euler2quat_yaw ext 0\<rparr>"
      using k by (simp add: set_opponent_pose_def)
    ultimately have "\<exists>s'. reset_opponent ext rng_arg s = Some (Inr s')
            \<and> sim s' = (sim s)\<lparr>mocap_pos := (0, - 5), mocap_quat := euler2quat_yaw ext 0\<rparr>"
      by blast
  }
  note total = this
  {
    assume a: "reset_opponent ext rng_arg s = Some (Inr s')
        \<and> opponent_policy s' = Some ''static_stationary''"
    then obtain s2 g g' p po where
      pr: "reset_prologue ext rng_arg s = Inr s2"
      and p: "opponent_policy s' = Some p"
      and s': "s' = (set_opponent_pose ext (if p = ''static_stationary'' then (0, - 5, 0) else po)
                   (s2\<lparr>rng := Some g'\<rparr>))\<lparr>opponent_vel := [0, 0]\<rparr>"
      using reset_opponent_Inr[of ext rng_arg s s'] by blast
    from a p have ns: "p = ''static_stationary''" by simp
    from pr have k: "sim s2 = sim s" using reset_prologue_Inr by blast
    from k ns have "sim s' = (sim s)\<lparr>mocap_pos := (0, - 5), mocap_quat := euler2quat_yaw ext 0\<rparr>"
      unfolding s' by (simp add: set_opponent_pose_def)
  }
  note partial = this
  show ?thesis
    by (intro conjI; rule impI; (erule total | erule partial))
qed

text \<open>An instance: the probabilities \<open>[1, 0, 0]\<close> force the policy \<open>static_stationary\<close>.\<close>

theorem static_stationary_override_witness:
  "0 < min_spawn_distance (opp0\<lparr>opponent_probabilities := [1, 0, 0]\<rparr>)
   \<and> reset_prologue yaw_ext None (opp0\<lparr>opponent_probabilities := [1, 0, 0]\<rparr>)
       = Inr (opp0\<lparr>opponent_probabilities := [1, 0, 0],
                   opponent_policy := Some ''static_stationary''\<rparr>)
   \<and> planar_dist (fst (draw_pose (advance (3 * 0) (\<lambda>n. 1 / 2)))) (3, 4) = 5
   \<and> (\<exists>s'. reset_opponent yaw_ext None (opp0\<lparr>opponent_probabilities := [1, 0, 0]\<rparr>) = Some (Inr s')
         \<and> sim s' = \<lparr>mocap_pos = (0, - 5), mocap_quat = 0, root_xpos = (3, 4)\<rparr>)"
proof -
  let ?s = "opp0\<lparr>opponent_probabilities := [1, 0, 0]\<rparr>"
  let ?s2 = "opp0\<lparr>opponent_probabilities := [1, 0, 0],
                   opponent_policy := Some ''static_stationary''\<rparr>"
  have m: "0 < min_spawn_distance ?s" by (simp add: opp0_def)
  have p: "reset_prologue yaw_ext None ?s = Inr ?s2"
    by (simp add: reset_prologue_def sample_opponent_policy_def uniform_def advance_const opp0_def)
  have g: "rng ?s2 = Some (\<lambda>n. 1 / 2)" by (simp add: opp0_def)
  have q: "opponent_policy ?s2 = Some ''static_stationary''" by simp
  have d: "planar_dist (fst (draw_pose (advance (3 * 0) (\<lambda>n. 1 / 2)))) (3, 4) = 5"
    by (simp add: advance_const draw_pose_half planar_dist_345)
  then have d': "min_spawn_distance ?s \<le>
      planar_dist (fst (draw_pose (advance (3 * 0) (\<lambda>n. 1 / 2)))) (root_xpos (sim ?s))"
    by (simp add: opp0_def)
  have "\<exists>s'. reset_opponent yaw_ext None ?s = Some (Inr s')
         \<and> sim s' = (sim ?s)\<lparr>mocap_pos := (0, - 5), mocap_quat := euler2quat_yaw yaw_ext 0\<rparr>"
    by (rule mp[OF static_stationary_override[of ?s yaw_ext None ?s2 "\<lambda>n. 1 / 2" 0, THEN conjunct1]])
       (intro conjI m p g q d')
  then have t: "\<exists>s'. reset_opponent yaw_ext None ?s = Some (Inr s')
         \<and> sim s' = \<lparr>mocap_pos = (0, - 5), mocap_quat = 0, root_xpos = (3, 4)\<rparr>"
    by (simp add: opp0_def yaw_ext_def)
  from m p d t show ?thesis by (intro conjI)
qed

subsection \<open>C10: the precondition of reset_opponent\<close>




subsection \<open>C6: the policy draw\<close>

text \<open>
  Claim C6 does not hold of the code when the three probabilities sum to less than one:
  \<^verbatim>\<open>sample_opponent_policy\<close> has no \<^verbatim>\<open>else\<close> branch. With the probabilities
  \<open>[0.1, 0.2, 0.3]\<close> and the draw \<open>0.9\<close>, the policy \<open>random\<close> of the previous episode
  survives the sampling step and the whole reset; and an opponent whose policy was never
  set keeps it unset, so that the reset raises \<^verbatim>\<open>AttributeError\<close>.
\<close>

theorem policy_not_redrawn_in_dead_zone:
  "sample_opponent_policy
      (opp0\<lparr>opponent_probabilities := [1 / 10, 1 / 5, 3 / 10],
            rng := Some (\<lambda>n. if n = 0 then 9 / 10 else 1 / 2)\<rparr>)
     = Inr (opp0\<lparr>opponent_probabilities := [1 / 10, 1 / 5, 3 / 10]\<rparr>)
   \<and> opponent_policy (opp0\<lparr>opponent_probabilities := [1 / 10, 1 / 5, 3 / 10]\<rparr>) = Some ''random''
   \<and> reset_opponent yaw_ext None
      (opp0\<lparr>opponent_probabilities := [1 / 10, 1 / 5, 3 / 10],
            rng := Some (\<lambda>n. if n = 0 then 9 / 10 else 1 / 2)\<rparr>)
     = Some (Inr (opp0\<lparr>opponent_probabilities := [1 / 10, 1 / 5, 3 / 10]\<rparr>))
   \<and> reset_opponent yaw_ext None
      (opp0\<lparr>opponent_probabilities := [1 / 10, 1 / 5, 3 / 10],
            rng := Some (\<lambda>n. if n = 0 then 9 / 10 else 1 / 2), opponent_policy := None\<rparr>)
     = Some (Inl (AttributeError, opp0\<lparr>opponent_probabilities := [1 / 10, 1 / 5, 3 / 10],
                                        opponent_policy := None\<rparr>))"
proof -
  let ?g = "\<lambda>n::nat. if n = 0 then 9 / 10 else (1 / 2 :: real)"
  let ?s = "opp0\<lparr>opponent_probabilities := [1 / 10, 1 / 5, 3 / 10], rng := Some ?g\<rparr>"
  let ?t = "opp0\<lparr>opponent_probabilities := [1 / 10, 1 / 5, 3 / 10]\<rparr>"
  have a: "advance (Suc 0) ?g = (\<lambda>n. 1 / 2)" by (simp add: advance_def)
  have r: "rng opp0 = Some (\<lambda>n. 1 / 2)" "opponent_vel opp0 = [0, 0]"
    "opponent_policy opp0 = Some ''random''" "min_spawn_distance opp0 = 2"
    "sim opp0 = \<lparr>mocap_pos = (0, 0), mocap_quat = 0, root_xpos = (3, 4)\<rparr>"
    by (simp_all add: opp0_def)
  have t: "?s\<lparr>rng := Some (\<lambda>n. 1 / 2)\<rparr> = ?t" by (simp add: opp0_def)
  have "sample_opponent_policy ?s = Inr (?s\<lparr>rng := Some (\<lambda>n. 1 / 2)\<rparr>)"
    by (simp add: sample_opponent_policy_def uniform_def a r)
  then have 1: "sample_opponent_policy ?s = Inr ?t"
    by (simp only: t)
  have 2: "opponent_policy ?t = Some ''random''" by (simp add: r)
  have v: "?s\<lparr>opponent_vel := [0, 0]\<rparr> = ?s" by (simp add: opp0_def)
  have p: "reset_prologue yaw_ext None ?s = Inr ?t"
    by (simp only: reset_prologue_def option.case sum.case v 1)
  have pl: "place_opponent yaw_ext (Some (0, 0, 0)) (?t\<lparr>rng := Some (\<lambda>n. 1 / 2)\<rparr>) = Inr ?t"
    by (simp add: place_opponent_def set_opponent_pose_def opp0_def yaw_ext_def)
  have 3: "reset_opponent yaw_ext None ?s = Some (Inr ?t)"
    by (simp add: reset_opponent_def p r opp0_loop pl)
  let ?u = "opp0\<lparr>opponent_probabilities := [1 / 10, 1 / 5, 3 / 10], opponent_policy := None\<rparr>"
  have "sample_opponent_policy (?s\<lparr>opponent_policy := None\<rparr>) = Inr ?u"
    by (simp add: sample_opponent_policy_def uniform_def a) (simp add: opp0_def)
  moreover have "?s\<lparr>opponent_policy := None, opponent_vel := [0, 0]\<rparr> = ?s\<lparr>opponent_policy := None\<rparr>"
    by (simp add: opp0_def)
  ultimately have p': "reset_prologue yaw_ext None (?s\<lparr>opponent_policy := None\<rparr>) = Inr ?u"
    by (simp add: reset_prologue_def)
  have pl': "place_opponent yaw_ext (Some (0, 0, 0)) (?u\<lparr>rng := Some (\<lambda>n. 1 / 2)\<rparr>)
      = Inl (AttributeError, ?u)"
    by (simp add: place_opponent_def opp0_def)
  have 4: "reset_opponent yaw_ext None (?s\<lparr>opponent_policy := None\<rparr>) = Some (Inl (AttributeError, ?u))"
    by (simp add: reset_opponent_def p' r opp0_loop pl')
  from 1 2 3 4 show ?thesis by (intro conjI)
qed

subsection \<open>C2: the source of randomness\<close>

text \<open>
  Claim C2 does not hold of the code: \<^verbatim>\<open>_sample_task\<close> and
  \<^verbatim>\<open>_randomize_position_orientation\<close> draw from the module-level \<^verbatim>\<open>np.random\<close>, not
  from the episode generator. With one and the same environment, \<^verbatim>\<open>np_random\<close>
  included, two states of the module-level generator give different tasks and different
  reset positions.
\<close>

theorem task_and_reset_state_read_global_random_state:
  "fst (sample_task env0 (\<lambda>n. 1 / 4)) = env0\<lparr>current_task := Some ''chase''\<rparr>
   \<and> fst (sample_task env0 (\<lambda>n. 3 / 4)) = env0\<lparr>current_task := Some ''flee''\<rparr>
   \<and> np_random (fst (sample_task env0 (\<lambda>n. 1 / 4))) = np_random (fst (sample_task env0 (\<lambda>n. 3 / 4)))
   \<and> fst (randomize_position_orientation [0, 0, 1] [0] (\<lambda>n. 1 / 4)) = ([- 3, - 3, 1], [0])
   \<and> fst (randomize_position_orientation [0, 0, 1] [0] (\<lambda>n. 3 / 4)) = ([3, 3, 1], [0])"
proof -
  have f: "nat \<lfloor>(1 / 4 :: real) * 2\<rfloor> = 0" "nat \<lfloor>(3 / 4 :: real) * 2\<rfloor> = 1"
    by simp_all
  have t: "task_choice env0 = ''random''" by (simp add: env0_def)
  show ?thesis
    by (simp add: sample_task_def np_choice_def t f randomize_position_orientation_def uniform_def)
qed


subsection \<open>C9: the win condition and the sparse score\<close>

lemma rint_of_int: "rint (of_int n) = of_int n"
  by (simp add: rint_def)

lemma np_round2_grid: "np_round2 (of_int n / 100) = of_int n / 100"
  by (simp add: np_round2_def rint_of_int)

lemma win_condition_1:
  assumes "pelvis_xpos e = (px, py, pz)" and "obs_opponent_pose e = (ox, oy, oa)"
    and "sqrt ((px - ox)\<^sup>2 + (py - oy)\<^sup>2) \<le> win_distance e" and "startFlag e"
  shows "win_condition e = 1"
  using assms by (simp add: win_condition_def)

lemma win_condition_cases: "win_condition e = 0 \<or> win_condition e = 1"
  by (simp add: win_condition_def split: prod.splits)

text \<open>
  Claim C9 as stated gives the sparse score of a winning step as \<open>1 - time / 20\<close>. The
  code rounds the time to two decimals first: at the time \<open>0.004\<close>, with the agent
  \<open>0.2\<close> away from the opponent and the setup complete, the step wins and the sparse
  score is \<open>1\<close>, not \<open>1 - 0.004 / 20\<close>.
\<close>

theorem sparse_score_rounds_time_counterexample:
  "win_condition env0 = 1
   \<and> rwd_solved (get_reward_dict env0) = 1
   \<and> rwd_sparse (get_reward_dict env0) = 1
   \<and> rwd_sparse (get_reward_dict env0) \<noteq> 1 - obs_time env0 / 20"
proof -
  have "sqrt ((0.2 - 0)\<^sup>2 + (0 - 0)\<^sup>2) = \<bar>0.2 :: real\<bar>"
    by (simp only: diff_zero zero_power2 add_0_right real_sqrt_abs)
  then have d: "sqrt ((0.2 - 0)\<^sup>2 + (0 - 0)\<^sup>2) \<le> (0.5 :: real)" by simp
  have w: "win_condition env0 = 1"
    by (rule win_condition_1[of env0 "0.2" 0 "0.9" 0 0 0]) (use d in \<open>simp_all add: env0_def\<close>)
  have f: "\<lfloor>(0.004 :: real) * 100\<rfloor> = 0" by simp
  have "rint (0.004 * 100) = 0"
    unfolding rint_def Let_def f by simp
  then have r: "np_round2 (obs_time env0) = 0" by (simp add: np_round2_def env0_def)
  have s: "rwd_sparse (get_reward_dict env0) = 1"
    by (simp add: get_reward_dict_def Let_def w get_score_def r)
  have t: "obs_time env0 = 1 / 250" by (simp add: env0_def)
  have v: "rwd_solved (get_reward_dict env0) = 1"
    by (simp add: get_reward_dict_def Let_def w)
  have n: "rwd_sparse (get_reward_dict env0) \<noteq> 1 - obs_time env0 / 20"
    unfolding s t by simp
  from w v s n show ?thesis by (intro conjI)
qed

text \<open>
  Claim C9, amended. When the planar distance between the pelvis and the observed
  opponent is at most \<open>win_distance\<close>, \<open>startFlag\<close> holds and \<open>maxTime = 20\<close>, the reward
  dictionary has \<open>solved = 1\<close>, \<open>done = 1\<close> and \<open>sparse = 1 - t / 20\<close>, where \<open>t\<close> is the
  observed time rounded to two decimals (the time itself when it is a whole number of
  hundredths); on a step that does not win, \<open>sparse = 0\<close>.
\<close>

theorem win_step_reward:
  "(pelvis_xpos e = (px, py, pz) \<and> obs_opponent_pose e = (ox, oy, oa)
      \<and> sqrt ((px - ox)\<^sup>2 + (py - oy)\<^sup>2) \<le> win_distance e \<and> startFlag e \<and> maxTime e = 20
    \<longrightarrow> rwd_solved (get_reward_dict e) = 1 \<and> rwd_done (get_reward_dict e) = 1
        \<and> rwd_sparse (get_reward_dict e) = 1 - np_round2 (obs_time e) / 20)
   \<and> (rwd_solved (get_reward_dict e) \<noteq> 1 \<longrightarrow> rwd_sparse (get_reward_dict e) = 0)
   \<and> (obs_time e = of_int n / 100 \<longrightarrow> np_round2 (obs_time e) = obs_time e)"
proof -
  {
    assume a: "pelvis_xpos e = (px, py, pz) \<and> obs_opponent_pose e = (ox, oy, oa)
      \<and> sqrt ((px - ox)\<^sup>2 + (py - oy)\<^sup>2) \<le> win_distance e \<and> startFlag e \<and> maxTime e = 20"
    then have w: "win_condition e = 1" using win_condition_1[of e px py pz ox oy oa] by blast
    with a have "rwd_solved (get_reward_dict e) = 1 \<and> rwd_done (get_reward_dict e) = 1
        \<and> rwd_sparse (get_reward_dict e) = 1 - np_round2 (obs_time e) / 20"
      by (simp add: get_reward_dict_def Let_def get_done_def get_score_def)
  }
  note win = this
  {
    assume "rwd_solved (get_reward_dict e) \<noteq> 1"
    then have "win_condition e \<noteq> 1" by (simp add: get_reward_dict_def Let_def)
    with win_condition_cases[of e] have "win_condition e = 0" by simp
    then have "rwd_sparse (get_reward_dict e) = 0" by (simp add: get_reward_dict_def Let_def)
  }
  note nowin = this
  {
    assume "obs_time e = of_int n / 100"
    then have "np_round2 (obs_time e) = obs_time e" by (simp only: np_round2_grid)
  }
  note grid = this
  show ?thesis
    by (intro conjI; rule impI; (erule win | erule nowin | erule grid))
qed

text \<open>A winning step at the time \<open>3.14\<close>, and a step before the setup is complete.\<close>

theorem win_step_reward_witness:
  "pelvis_xpos (env0\<lparr>obs_time := 314 / 100\<rparr>) = (0.2, 0, 0.9)
   \<and> obs_opponent_pose (env0\<lparr>obs_time := 314 / 100\<rparr>) = (0, 0, 0)
   \<and> sqrt ((0.2 - 0)\<^sup>2 + (0 - 0)\<^sup>2) \<le> win_distance (env0\<lparr>obs_time := 314 / 100\<rparr>)
   \<and> startFlag (env0\<lparr>obs_time := 314 / 100\<rparr>) \<and> maxTime (env0\<lparr>obs_time := 314 / 100\<rparr>) = 20
   \<and> rwd_solved (get_reward_dict (env0\<lparr>obs_time := 314 / 100\<rparr>)) = 1
   \<and> rwd_done (get_reward_dict (env0\<lparr>obs_time := 314 / 100\<rparr>)) = 1
   \<and> rwd_sparse (get_reward_dict (env0\<lparr>obs_time := 314 / 100\<rparr>)) = 1 - (314 / 100) / 20
   \<and> rwd_solved (get_reward_dict (env0\<lparr>startFlag := False\<rparr>)) \<noteq> 1
   \<and> rwd_sparse (get_reward_dict (env0\<lparr>startFlag := False\<rparr>)) = 0"
proof -
  let ?e = "env0\<lparr>obs_time := 314 / 100\<rparr>"
  have "sqrt ((0.2 - 0)\<^sup>2 + (0 - 0)\<^sup>2) = \<bar>0.2 :: real\<bar>"
    by (simp only: diff_zero zero_power2 add_0_right real_sqrt_abs)
  then have d: "sqrt ((0.2 - 0)\<^sup>2 + (0 - 0)\<^sup>2) \<le> win_distance ?e"
    by (simp add: env0_def)
  have h: "pelvis_xpos ?e = (0.2, 0, 0.9)" "obs_opponent_pose ?e = (0, 0, 0)"
    "startFlag ?e" "maxTime ?e = 20"
    by (simp_all add: env0_def)
  note c = win_step_reward[of ?e "0.2" 0 "0.9" 0 0 0 314]
  have "rwd_solved (get_reward_dict ?e) = 1 \<and> rwd_done (get_reward_dict ?e) = 1
        \<and> rwd_sparse (get_reward_dict ?e) = 1 - np_round2 (obs_time ?e) / 20"
    by (rule mp[OF c[THEN conjunct1]]) (intro conjI h d)
  moreover have "np_round2 (obs_time ?e) = obs_time ?e"
    by (rule mp[OF c[THEN conjunct2, THEN conjunct2]]) simp
  ultimately have w: "rwd_solved (get_reward_dict ?e) = 1" "rwd_done (get_reward_dict ?e) = 1"
    "rwd_sparse (get_reward_dict ?e) = 1 - (314 / 100) / 20"
    by simp_all
  have n: "rwd_solved (get_reward_dict (env0\<lparr>startFlag := False\<rparr>)) \<noteq> 1"
    by (simp add: get_reward_dict_def Let_def win_condition_def split: prod.splits)
  from win_step_reward[of "env0\<lparr>startFlag := False\<rparr>", THEN conjunct2, THEN conjunct1, THEN mp, OF n]
  have z: "rwd_sparse (get_reward_dict (env0\<lparr>startFlag := False\<rparr>)) = 0" .
  from h d w n z show ?thesis by (intro conjI)
qed


subsection \<open>Terrain patches\<close>

text \<open>
  Reshaping, flipping and rotating move cells and create none; a min-max normalised cell
  lies in the unit interval as soon as the minimum and the maximum differ.
\<close>

lemma reshape_Suc: "reshape (Suc r) c xs = reshape r c xs @ [take c (drop (r * c) xs)]"
  by (simp add: reshape_def)

lemma concat_reshape: "concat (reshape r c xs) = take (r * c) xs"
proof (induction r)
  case 0
  show ?case by (simp add: reshape_def)
next
  case (Suc r)
  have "take (r * c) xs @ take c (drop (r * c) xs) = take (r * c + c) xs"
    by (simp add: take_add)
  with Suc show ?case by (simp add: reshape_Suc add.commute)
qed

lemma set_concat_transpose: "set (concat (transpose xss)) \<subseteq> set (concat xss)"
proof
  fix x
  assume "x \<in> set (concat (transpose xss))"
  then obtain row where row: "row \<in> set (transpose xss)" and x: "x \<in> set row" by auto
  from row obtain i where i: "i < length (transpose xss)" and r: "row = transpose xss ! i"
    by (auto simp: in_set_conv_nth)
  from x r nth_transpose[OF i]
  obtain ys where "ys \<in> set xss" "i < length ys" "x = ys ! i" by auto
  then show "x \<in> set (concat xss)" by (auto intro: bexI[of _ ys])
qed

lemma set_concat_flip2: "set (concat (np_flip2 m)) = set (concat m)"
  by (auto simp: np_flip2_def)

lemma set_concat_rot90: "set (concat (rot90 m)) \<subseteq> set (concat m)"
proof -
  have "set (concat (rot90 m)) \<subseteq> set (concat (map rev m))"
    unfolding rot90_def by (rule set_concat_transpose)
  also have "\<dots> = set (concat m)" by auto
  finally show ?thesis .
qed

lemma list_all_rows: "list_all (list_all P) m \<longleftrightarrow> (\<forall>x \<in> set (concat m). P x)"
  by (auto simp: list_all_iff)

lemma normalized_unit:
  assumes "x \<in> set xs" and "Min (set xs) < Max (set xs)"
  shows "\<exists>v. np_divide (x - Min (set xs)) (Max (set xs) - Min (set xs)) = Some v \<and> 0 \<le> v \<and> v \<le> 1"
proof -
  have "Min (set xs) \<le> x" "x \<le> Max (set xs)" using assms(1) by simp_all
  with assms(2) show ?thesis
    by (simp add: np_divide_def)
qed

lemma Min_less_Max:
  assumes "a \<in> set xs" "b \<in> set xs" "a < b"
  shows "Min (set xs) < Max (set xs)"
proof -
  have "Min (set xs) \<le> a" using assms(1) by simp
  also note assms(3)
  also have "b \<le> Max (set xs)" using assms(2) by simp
  finally show ?thesis .
qed

lemma rough_cells:
  "concat (reshape ps ps (map f [0..<ps * ps])) = map f [0..<ps * ps]"
  by (simp add: concat_reshape)

lemma rough_in_range:
  assumes "x \<in> set xs" and "Min (set xs) < Max (set xs)"
  shows "in_range (- 0.02) 0.06
           (map_option (\<lambda>v. v * 0.08 - 0.02)
              (np_divide (x - Min (set xs)) (Max (set xs) - Min (set xs))))"
proof -
  from normalized_unit[OF assms] obtain v where
    v: "np_divide (x - Min (set xs)) (Max (set xs) - Min (set xs)) = Some v" "0 \<le> v" "v \<le> 1"
    by blast
  then show ?thesis by (simp add: in_range_def)
qed

lemma compute_rough_terrain_ok:
  assumes "i < ps * ps" and "j < ps * ps" and "g i \<noteq> g j"
  shows "\<exists>patch. compute_rough_terrain ps g = Inr (patch, advance (ps * ps) g)
           \<and> list_all (list_all (in_range (- 0.02) 0.06)) patch"
proof -
  define f where "f = (\<lambda>i. - 0.5 + (0.5 - (- 0.5)) * g i)"
  define cells where "cells = map f [0..<ps * ps]"
  define rough where "rough = reshape ps ps cells"
  define F where "F = (\<lambda>x. map_option (\<lambda>v. v * 0.08 - 0.02)
                         (np_divide (x - Min (set cells)) (Max (set cells) - Min (set cells))))"
  have c: "concat rough = cells" by (simp add: rough_def cells_def rough_cells)
  have fi: "f i \<in> set cells" "f j \<in> set cells" using assms(1,2) by (simp_all add: cells_def)
  have ne: "f i \<noteq> f j" using assms(3) by (simp add: f_def)
  have ce: "cells \<noteq> []" using fi by auto
  have lt: "Min (set cells) < Max (set cells)"
  proof (cases "f i < f j")
    case True
    from Min_less_Max[OF fi True] show ?thesis .
  next
    case False
    with ne have "f j < f i" by simp
    from Min_less_Max[OF fi(2,1) this] show ?thesis .
  qed
  have r: "compute_rough_terrain ps g = Inr (map (map F) rough, advance (ps * ps) g)"
    unfolding compute_rough_terrain_def Let_def f_def[symmetric] cells_def[symmetric]
      rough_def[symmetric] c F_def[symmetric]
    using ce by (simp only: if_False)
  have "\<forall>e \<in> set (concat (map (map F) rough)). in_range (- 0.02) 0.06 e"
  proof
    fix e
    assume "e \<in> set (concat (map (map F) rough))"
    then have "e \<in> F ` set (concat rough)" by auto
    then obtain x where "x \<in> set cells" "e = F x" unfolding c by blast
    with rough_in_range[OF _ lt] show "in_range (- 0.02) 0.06 e" by (simp add: F_def)
  qed
  then have "list_all (list_all (in_range (- 0.02) 0.06)) (map (map F) rough)"
    by (simp only: list_all_rows)
  with r show ?thesis by blast
qed

text \<open>
  The ripple of a hilly patch of side \<open>ps \<ge> 2\<close> is not constant: its first sample is
  \<open>0\<close> and its second is \<open>cos (10\<pi> / (ps\<^sup>2 - 1)) - 1\<close>, which is negative because
  \<open>ps\<^sup>2 - 1\<close> is neither \<open>1\<close> nor \<open>5\<close>.
\<close>

lemma square_not_degenerate:
  assumes "2 \<le> (ps :: nat)"
  shows "3 \<le> ps * ps - 1 \<and> ps * ps - 1 \<noteq> 5"
proof (cases "ps = 2")
  case True
  then show ?thesis by simp
next
  case False
  with assms have h: "3 \<le> ps" by simp
  define n where "n = ps * ps"
  from mult_le_mono[OF h h] have "9 \<le> n" by (simp add: n_def)
  then have "3 \<le> n - 1 \<and> n - 1 \<noteq> 5" by arith
  then show ?thesis unfolding n_def .
qed

lemma cos_ripple_not_one:
  assumes "3 \<le> (m :: nat)" and "m \<noteq> 5"
  shows "cos (10 * pi / real m) \<noteq> 1"
proof
  assume "cos (10 * pi / real m) = 1"
  then obtain k :: int where k: "10 * pi / real m = of_int k * 2 * pi"
    unfolding cos_one_2pi_int by blast
  from assms(1) have m0: "real m \<noteq> 0" by simp
  from k have "10 * pi = of_int k * 2 * pi * real m"
    using m0 by (simp add: field_simps)
  then have "pi * 5 = pi * (of_int k * real m)" by simp
  then have "(5 :: real) = of_int k * real m" by simp
  then have "(5 :: real) = of_int (k * int m)" by simp
  then have "(5 :: int) = k * int m" by linarith
  moreover have "int m dvd k * int m" by simp
  ultimately have "int m dvd 5" by simp
  then have "m dvd 5" by presburger
  then have "m \<le> 5" by (rule dvd_imp_le) simp
  with assms have "m = 3 \<or> m = 4" by linarith
  with \<open>m dvd 5\<close> show False by auto
qed

lemma linspace_nth:
  assumes "2 \<le> n" and "i < n"
  shows "linspace start stop n ! i = start + real i * ((stop - start) / real (n - 1))"
  using assms by (simp add: linspace_def)

lemma linspace_length: "2 \<le> n \<Longrightarrow> length (linspace start stop n) = n"
  by (simp add: linspace_def)

lemma hilly_in_range:
  assumes "x \<in> set xs" and "Min (set xs) < Max (set xs)" and "0 \<le> scalar"
  shows "in_range 0 scalar
           (map_option (\<lambda>v. v * scalar)
              (np_divide (x - Min (set xs)) (Max (set xs) - Min (set xs))))"
proof -
  from normalized_unit[OF assms(1,2)] obtain v where
    v: "np_divide (x - Min (set xs)) (Max (set xs) - Min (set xs)) = Some v" "0 \<le> v" "v \<le> 1"
    by blast
  from v(3) assms(3) have "v * scalar \<le> 1 * scalar" by (rule mult_right_mono)
  with v assms(3) show ?thesis by (simp add: in_range_def)
qed

lemma hilly_data_spread:
  assumes "2 \<le> ps"
  defines "data \<equiv> map (\<lambda>t. sin (t + pi / 2) - 1) (linspace 0 (10 * pi) (ps * ps))"
  shows "data \<noteq> [] \<and> Min (set data) < Max (set data)"
proof -
  let ?n = "ps * ps"
  from square_not_degenerate[OF assms(1)] have m: "3 \<le> ?n - 1" "?n - 1 \<noteq> 5" by simp_all
  then have n: "2 \<le> ?n" by simp
  from n have i: "0 < ?n" "1 < ?n" by linarith+
  have len: "length data = ?n" by (simp add: data_def linspace_length[OF n])
  have l: "0 < length (linspace 0 (10 * pi) ?n)" "1 < length (linspace 0 (10 * pi) ?n)"
    using i by (simp_all only: linspace_length[OF n])
  have d0: "data ! 0 = 0"
    unfolding data_def nth_map[OF l(1)] linspace_nth[OF n i(1)] by simp
  have "data ! 1 = sin (10 * pi / real (?n - 1) + pi / 2) - 1"
    unfolding data_def nth_map[OF l(2)] linspace_nth[OF n i(2)] by simp
  also have "\<dots> = cos (10 * pi / real (?n - 1)) - 1"
    by (simp add: sin_add)
  finally have d1: "data ! 1 = cos (10 * pi / real (?n - 1)) - 1" .
  have c1: "cos (10 * pi / real (?n - 1)) \<le> 1" by (rule cos_le_one)
  have c2: "cos (10 * pi / real (?n - 1)) \<noteq> 1" by (rule cos_ripple_not_one[OF m])
  have "cos (10 * pi / real (?n - 1)) < 1"
    by (rule order.not_eq_order_implies_strict[OF c2 c1])
  with d0 d1 have lt: "data ! 1 < data ! 0" by simp
  from i have ld: "1 < length data" "0 < length data" by (simp_all only: len)
  have mem: "data ! 1 \<in> set data" "data ! 0 \<in> set data"
    by (rule nth_mem[OF ld(1)], rule nth_mem[OF ld(2)])
  from Min_less_Max[OF mem lt] mem show ?thesis by auto
qed

lemma compute_hilly_terrain_ok:
  assumes "2 \<le> ps" and "unit_draws g"
  shows "\<exists>patch g'. compute_hilly_terrain ps g = Inr (patch, g')
           \<and> 0.03 \<le> fst (uniform 0.03 0.23 g) \<and> fst (uniform 0.03 0.23 g) \<le> 0.23
           \<and> list_all (list_all (in_range 0 (fst (uniform 0.03 0.23 g)))) patch"
proof -
  define scalar where "scalar = fst (uniform 0.03 0.23 g)"
  define g1 where "g1 = snd (uniform 0.03 0.23 g)"
  define data where "data = map (\<lambda>t. sin (t + pi / 2) - 1) (linspace 0 (10 * pi) (ps * ps))"
  define G where "G = (\<lambda>d. np_divide (d - Min (set data)) (Max (set data) - Min (set data)))"
  define base where "base = map (map (map_option (\<lambda>v. v * scalar))) (reshape ps ps (map G data))"
  define flipped where "flipped = np_flip2 base"
  define u where "u = fst (uniform 0 1 g1)"
  define g2 where "g2 = snd (uniform 0 1 g1)"
  from assms(2) have g0: "0 \<le> g 0" "g 0 < 1" by (simp_all add: unit_draws_def)
  then have sc: "0.03 \<le> scalar" "scalar \<le> 0.23"
    by (simp_all add: scalar_def uniform_def)
  then have s0: "0 \<le> scalar" by simp
  from hilly_data_spread[OF assms(1)] have ne: "data \<noteq> []" and lt: "Min (set data) < Max (set data)"
    by (simp_all add: data_def)
  have u1: "uniform 0.03 0.23 g = (scalar, g1)" by (simp add: scalar_def g1_def)
  have u2: "uniform 0 1 g1 = (u, g2)" by (simp add: u_def g2_def)
  have r: "compute_hilly_terrain ps g = Inr (if u < 0.5 then rot90 flipped else flipped, g2)"
    unfolding compute_hilly_terrain_def Let_def u1 prod.case data_def[symmetric]
      G_def[symmetric] base_def[symmetric] flipped_def[symmetric] u2
    using ne by (simp only: if_False)
  have b: "\<forall>e \<in> set (concat base). in_range 0 scalar e"
  proof
    fix e
    assume "e \<in> set (concat base)"
    then have "e \<in> map_option (\<lambda>v. v * scalar) ` set (concat (reshape ps ps (map G data)))"
      unfolding base_def by auto
    then have "e \<in> map_option (\<lambda>v. v * scalar) ` set (map G data)"
      unfolding concat_reshape using set_take_subset by fastforce
    then obtain d where "d \<in> set data" "e = map_option (\<lambda>v. v * scalar) (G d)" by auto
    with hilly_in_range[OF _ lt s0] show "in_range 0 scalar e" by (simp add: G_def)
  qed
  have fb: "set (concat flipped) = set (concat base)"
    unfolding flipped_def by (rule set_concat_flip2)
  have "set (concat (if u < 0.5 then rot90 flipped else flipped)) \<subseteq> set (concat base)"
  proof (cases "u < 0.5")
    case True
    with set_concat_rot90[of flipped] show ?thesis by (simp only: fb if_True)
  next
    case False
    then show ?thesis by (simp only: fb if_False subset_refl)
  qed
  with b have "\<forall>e \<in> set (concat (if u < 0.5 then rot90 flipped else flipped)). in_range 0 scalar e"
    by blast
  then have "list_all (list_all (in_range 0 scalar)) (if u < 0.5 then rot90 flipped else flipped)"
    by (simp only: list_all_rows)
  with r sc show ?thesis unfolding scalar_def by blast
qed

subsection \<open>C8: the elevation bounds\<close>

text \<open>
  Claim C8 as stated bounds every hilly patch. A hilly patch of a single cell
  (\<open>patch_size = 1\<close>) has the one ripple sample \<open>0\<close>, so that the normalisation divides
  zero by zero: the cell is not a number, and lies in no interval.
\<close>

theorem hilly_single_cell_patch_counterexample:
  "compute_hilly_terrain 1 (\<lambda>n. 1 / 2) = Inr ([[None]], (\<lambda>n. 1 / 2))
   \<and> fst (uniform 0.03 0.23 (\<lambda>n. 1 / 2)) = 0.13
   \<and> \<not> list_all (list_all (in_range 0 0.13)) [[None]]"
proof -
  have l: "linspace 0 (10 * pi) (1 * 1) = [0]" by (simp add: linspace_def)
  have r: "reshape (Suc 0) (Suc 0) [None :: elevation] = [[None]]" by (simp add: reshape_def)
  have "compute_hilly_terrain 1 (\<lambda>n. 1 / 2) = Inr ([[None]], (\<lambda>n. 1 / 2))"
    unfolding compute_hilly_terrain_def Let_def l
    by (simp add: uniform_def advance_def np_divide_def r np_flip2_def)
  then show ?thesis by (simp add: uniform_def in_range_def)
qed

text \<open>
  Claim C8, amended. When the uniform samples of a rough patch are not all equal, the
  patch is generated and each of its elevations lies in \<open>[-0.02, 0.06]\<close>; and a hilly
  patch of side at least \<open>2\<close>, on a generator of unit-interval draws, is generated with
  each elevation in \<open>[0, scalar]\<close>, where \<open>scalar\<close> is the call's draw from
  \<open>[0.03, 0.23]\<close>.
\<close>

theorem terrain_bounds:
  "(i < ps * ps \<and> j < ps * ps \<and> g i \<noteq> g j \<longrightarrow>
      (\<exists>patch. compute_rough_terrain ps g = Inr (patch, advance (ps * ps) g)
         \<and> list_all (list_all (in_range (- 0.02) 0.06)) patch))
   \<and> (2 \<le> ps \<and> unit_draws g \<longrightarrow>
      (\<exists>patch g'. compute_hilly_terrain ps g = Inr (patch, g')
         \<and> 0.03 \<le> fst (uniform 0.03 0.23 g) \<and> fst (uniform 0.03 0.23 g) \<le> 0.23
         \<and> list_all (list_all (in_range 0 (fst (uniform 0.03 0.23 g)))) patch))"
proof (intro conjI impI)
  assume "i < ps * ps \<and> j < ps * ps \<and> g i \<noteq> g j"
  then show "\<exists>patch. compute_rough_terrain ps g = Inr (patch, advance (ps * ps) g)
         \<and> list_all (list_all (in_range (- 0.02) 0.06)) patch"
    using compute_rough_terrain_ok[of i ps j g] by blast
next
  assume "2 \<le> ps \<and> unit_draws g"
  then show "\<exists>patch g'. compute_hilly_terrain ps g = Inr (patch, g')
         \<and> 0.03 \<le> fst (uniform 0.03 0.23 g) \<and> fst (uniform 0.03 0.23 g) \<le> 0.23
         \<and> list_all (list_all (in_range 0 (fst (uniform 0.03 0.23 g)))) patch"
    using compute_hilly_terrain_ok[of ps g] by blast
qed

text \<open>Patches of side \<open>2\<close> on the generator whose first draw is \<open>0\<close> and the others \<open>1/2\<close>.\<close>

theorem terrain_bounds_witness:
  "(0 :: nat) < 2 * 2 \<and> (1 :: nat) < 2 * 2
   \<and> (if (0 :: nat) = 0 then 0 else 1 / 2 :: real) \<noteq> (if (1 :: nat) = 0 then 0 else 1 / 2)
   \<and> (\<exists>patch. compute_rough_terrain 2 (\<lambda>n. if n = 0 then 0 else 1 / 2)
                 = Inr (patch, advance (2 * 2) (\<lambda>n. if n = 0 then 0 else 1 / 2))
         \<and> list_all (list_all (in_range (- 0.02) 0.06)) patch)
   \<and> (2 :: nat) \<le> 2 \<and> unit_draws (\<lambda>n. if n = 0 then 0 else 1 / 2)
   \<and> (\<exists>patch g'. compute_hilly_terrain 2 (\<lambda>n. if n = 0 then 0 else 1 / 2) = Inr (patch, g')
         \<and> 0.03 \<le> fst (uniform 0.03 0.23 (\<lambda>n. if n = 0 then 0 else 1 / 2))
         \<and> fst (uniform 0.03 0.23 (\<lambda>n. if n = 0 then 0 else 1 / 2)) \<le> 0.23
         \<and> list_all (list_all (in_range 0 (fst (uniform 0.03 0.23 (\<lambda>n. if n = 0 then 0 else 1 / 2)))))
               patch)"
proof -
  let ?g = "\<lambda>n::nat. if n = 0 then 0 else (1 / 2 :: real)"
  have h1: "(0 :: nat) < 2 * 2 \<and> (1 :: nat) < 2 * 2 \<and> ?g 0 \<noteq> ?g 1" by simp
  have h2: "(2 :: nat) \<le> 2 \<and> unit_draws ?g" by (simp add: unit_draws_def)
  note c = terrain_bounds[of 0 2 1 ?g]
  have a: "\<exists>patch. compute_rough_terrain 2 ?g = Inr (patch, advance (2 * 2) ?g)
         \<and> list_all (list_all (in_range (- 0.02) 0.06)) patch"
    by (rule mp[OF c[THEN conjunct1] h1])
  have b: "\<exists>patch g'. compute_hilly_terrain 2 ?g = Inr (patch, g')
         \<and> 0.03 \<le> fst (uniform 0.03 0.23 ?g) \<and> fst (uniform 0.03 0.23 ?g) \<le> 0.23
         \<and> list_all (list_all (in_range 0 (fst (uniform 0.03 0.23 ?g)))) patch"
    by (rule mp[OF c[THEN conjunct2] h2])
  from h1 have h1': "(0 :: nat) < 2 * 2" "(1 :: nat) < 2 * 2" "?g 0 \<noteq> ?g 1" by blast+
  from h2 have h2': "(2 :: nat) \<le> 2" "unit_draws ?g" by blast+
  from h1' a h2' b show ?thesis by (intro conjI)
qed

end
